theory Spec2Isabelle
  imports Complex_Main
begin

section \<open>Data model\<close>

text \<open>
  The dashboard's state-synchronisation core lives in the \<open>App\<close> component
  (\<open>src/unnamed/part_002\<close>). A JavaScript string is modelled as a \<open>string\<close> of
  8-bit code units, a \<open>number\<close> that is only copied as \<open>real\<close>, an optional field
  as an \<open>option\<close>.
\<close>

record LocationMatch =
  id_loc :: string
  name :: string
  admin1 :: "string option"
  country :: string
  latitude :: real
  longitude :: real
  timezone :: string

text \<open>
  React compares the dependencies of an effect by object identity, and
  \<open>handleLocationSelection\<close> builds a new object for that reason. No object is
  mutated after it has been built, so a reference is its address together with
  its contents.
\<close>

datatype 'a obj = Obj (addr_of: nat) (content: 'a)

datatype MeasurementSystem = metric | imperial

datatype SearchStatus = search_idle | search_loading | search_error | search_no_results

datatype WeatherStatus = weather_idle | weather_loading | weather_ready | weather_error

text \<open>
  \<open>WeatherData\<close> is declared in \<open>types/weather\<close>; the core reads only
  \<open>dayOrder\<close>. The other fields (location snapshot, current conditions, daily
  list, hourly mapping, units) are carried as one value of type \<open>'p\<close>.
\<close>

record 'p WeatherData =
  dayOrder :: "string list"
  rest :: 'p

text \<open>A thrown value: an \<open>Error\<close> instance with its message, or anything else.\<close>

datatype thrown = Error string | NonError

text \<open>The ten \<open>useState\<close> cells of \<open>App\<close>.\<close>

record 'p app =
  searchTerm :: string
  searchResults :: "LocationMatch obj list"
  searchStatus :: SearchStatus
  searchError :: "string option"
  selectedLocation :: "LocationMatch obj option"
  units :: MeasurementSystem
  weatherData :: "'p WeatherData option"
  weatherStatus :: WeatherStatus
  weatherError :: "string option"
  selectedDay :: "string option"

section \<open>The platform: localStorage and JSON\<close>

text \<open>
  \<open>localStorage\<close>: \<open>getItem\<close> throws when the storage is not readable
  (disabled storage), \<open>setItem\<close> throws when the storage does not accept the
  write (quota exceeded, disabled storage).
\<close>

record storage =
  items :: "string \<rightharpoonup> string"
  readable :: bool
  accepts :: "string \<Rightarrow> string \<Rightarrow> bool"

definition getItem :: "storage \<Rightarrow> string \<Rightarrow> thrown + string option" where
  "getItem st k = (if readable st then Inr (items st k) else Inl (Error ''SecurityError''))"

definition setItem :: "storage \<Rightarrow> string \<Rightarrow> string \<Rightarrow> thrown + storage" where
  "setItem st k v =
     (if accepts st k v then Inr (st\<lparr>items := (items st)(k \<mapsto> v)\<rparr>)
      else Inl (Error ''QuotaExceededError''))"

text \<open>
  \<open>JSON.parse\<close> and \<open>JSON.stringify\<close> are parameters. \<open>parse\<close> throws
  (\<open>Inl\<close>) on text that is not JSON; it returns \<open>None\<close> for a falsy value (the
  text \<open>null\<close>) and the object otherwise.
\<close>

record platform =
  parse :: "string \<Rightarrow> thrown + LocationMatch option"
  stringify :: "LocationMatch \<Rightarrow> string"

text \<open>
  \<open>try { body } catch (error) { handler }\<close>. A body yields \<open>Inl e\<close> when it
  throws \<open>e\<close>, \<open>Inr (Some v)\<close> when it executes \<open>return v\<close> and \<open>Inr None\<close> when
  control falls through its end.
\<close>

definition try_catch :: "(thrown + 'a) \<Rightarrow> (thrown \<Rightarrow> thrown + 'a) \<Rightarrow> thrown + 'a" where
  "try_catch body handler = (case body of Inl e \<Rightarrow> handler e | Inr v \<Rightarrow> Inr v)"

section \<open>Loading the persisted selection\<close>

definition DEFAULT_LOCATION :: LocationMatch where
  "DEFAULT_LOCATION =
     \<lparr>id_loc = ''5391959'', name = ''San Francisco'', admin1 = Some ''California'',
      country = ''United States'', latitude = 37.7749, longitude = - 122.4194,
      timezone = ''America/Los_Angeles''\<rparr>"

definition loadSavedLocation :: "platform \<Rightarrow> storage \<Rightarrow> thrown + LocationMatch option" where
  "loadSavedLocation P st =
     (case try_catch
             (case getItem st ''selectedLocation'' of
                Inl e \<Rightarrow> Inl e
              | Inr None \<Rightarrow> Inr None
              | Inr (Some saved) \<Rightarrow>
                  if saved \<noteq> [] then
                    (case parse P saved of Inl e \<Rightarrow> Inl e | Inr v \<Rightarrow> Inr (Some v))
                  else Inr None)
             (\<lambda>error. Inr None)
      of Inl e \<Rightarrow> Inl e
       | Inr (Some v) \<Rightarrow> Inr v
       | Inr None \<Rightarrow> Inr (Some DEFAULT_LOCATION))"

definition loadSavedSearchTerm :: "storage \<Rightarrow> thrown + string" where
  "loadSavedSearchTerm st =
     (case try_catch
             (case getItem st ''searchTerm'' of
                Inl e \<Rightarrow> Inl e
              | Inr None \<Rightarrow> Inr None
              | Inr (Some saved) \<Rightarrow> if saved \<noteq> [] then Inr (Some saved) else Inr None)
             (\<lambda>error. Inr None)
      of Inl e \<Rightarrow> Inl e
       | Inr (Some v) \<Rightarrow> Inr v
       | Inr None \<Rightarrow> Inr (name DEFAULT_LOCATION @ '', '' @ country DEFAULT_LOCATION))"

text \<open>What the claim calls a parse failure and an absent value.\<close>

definition absent :: "storage \<Rightarrow> string \<Rightarrow> bool" where
  "absent st k = (case getItem st k of Inl e \<Rightarrow> True | Inr None \<Rightarrow> True | Inr (Some v) \<Rightarrow> False)"

definition stored :: "storage \<Rightarrow> string \<Rightarrow> string \<Rightarrow> bool" where
  "stored st k v = (getItem st k = Inr (Some v))"

section \<open>The system: React state, effect cycles, timers and requests in flight\<close>

text \<open>
  One run of the effect \<open>useEffect(..., [selectedLocation, units])\<close> is a cycle:
  its closure holds \<open>isActive\<close>, \<open>intervalId\<close> and the \<open>selectedLocation\<close> and
  \<open>units\<close> of the render that started it.
\<close>

record cycle =
  isActive :: bool
  intervalId :: "nat option"
  c_location :: "LocationMatch obj option"
  c_units :: MeasurementSystem

text \<open>
  A network call: \<open>fetchWeatherForecast\<close> issued by cycle \<open>c\<close> with the flag
  \<open>isAutoRefresh\<close>, or \<open>geocodeLocation\<close> on a query.
\<close>

datatype request = ForecastReq nat bool | GeocodeReq string

text \<open>An interval registered with the browser: the cycle whose callback it runs, and when it is next due.\<close>

record timer =
  owner :: nat
  due :: nat

record 'p sys =
  app :: "'p app"
  localStorage :: storage
  nextAddr :: nat
  cycles :: "cycle list"
  requests :: "(request \<times> bool) list"
  timers :: "nat \<rightharpoonup> timer"
  nextTimer :: nat
  now :: nat
  mounted :: bool

text \<open>\<open>requests\<close> logs every call issued, with \<open>True\<close> while it is in flight.\<close>

definition settle :: "nat \<Rightarrow> 'p sys \<Rightarrow> 'p sys" where
  "settle rid s = s\<lparr>requests := (requests s)[rid := (fst (requests s ! rid), False)]\<rparr>"

subsection \<open>fetchWeather\<close>

text \<open>\<open>data.dayOrder[0] ?? null\<close>\<close>

definition dayOrder0 :: "string list \<Rightarrow> string option" where
  "dayOrder0 order = (case order of [] \<Rightarrow> None | d # _ \<Rightarrow> Some d)"

text \<open>
  The updater passed to \<open>setSelectedDay\<close> during auto-refresh. \<open>prevDay && ...\<close>
  is false for \<open>null\<close> and for the empty string.
\<close>

definition sticky :: "string option \<Rightarrow> string list \<Rightarrow> string option" where
  "sticky prevDay order =
     (case prevDay of
        None \<Rightarrow> dayOrder0 order
      | Some d \<Rightarrow> if d \<noteq> [] \<and> d \<in> set order then Some d else dayOrder0 order)"

text \<open>\<open>fetchWeather\<close> of cycle \<open>c\<close> up to the \<open>await\<close>: the request is issued last.\<close>

definition fetchWeather :: "nat \<Rightarrow> bool \<Rightarrow> 'p sys \<Rightarrow> 'p sys" where
  "fetchWeather c isAutoRefresh s =
     (case c_location (cycles s ! c) of
        None \<Rightarrow> s
      | Some loc \<Rightarrow>
          let a1 = (if \<not> isAutoRefresh then (app s)\<lparr>weatherStatus := weather_loading\<rparr> else app s);
              a2 = a1\<lparr>weatherError := None\<rparr>
          in s\<lparr>app := a2, requests := requests s @ [(ForecastReq c isAutoRefresh, True)]\<rparr>)"

text \<open>After the \<open>await\<close>, when \<open>fetchWeatherForecast\<close> has returned \<open>data\<close>.\<close>

definition fetchWeather_resolved :: "nat \<Rightarrow> bool \<Rightarrow> 'p WeatherData \<Rightarrow> 'p sys \<Rightarrow> 'p sys" where
  "fetchWeather_resolved c isAutoRefresh data s =
     (if \<not> isActive (cycles s ! c) then s
      else s\<lparr>app := (app s)
             \<lparr>weatherData := Some data,
              selectedDay := (if \<not> isAutoRefresh then dayOrder0 (dayOrder data)
                              else sticky (selectedDay (app s)) (dayOrder data)),
              weatherStatus := weather_ready\<rparr>\<rparr>)"

text \<open>After the \<open>await\<close>, in the \<open>catch\<close> block, when \<open>fetchWeatherForecast\<close> has thrown.\<close>

definition fetchWeather_rejected :: "nat \<Rightarrow> bool \<Rightarrow> thrown \<Rightarrow> 'p sys \<Rightarrow> 'p sys" where
  "fetchWeather_rejected c isAutoRefresh err s =
     (if \<not> isActive (cycles s ! c) then s
      else if \<not> isAutoRefresh then
        s\<lparr>app := (app s)
           \<lparr>weatherStatus := weather_error,
            weatherError := Some (case err of Error m \<Rightarrow> m | NonError \<Rightarrow> ''Unable to load forecast'')\<rparr>\<rparr>
      else s)"

subsection \<open>The effect: start and teardown of a cycle\<close>

text \<open>
  \<open>setInterval\<close> hands out positive handles; the first tick is due one period
  (1000) after the registration.
\<close>

definition startCycle :: "'p sys \<Rightarrow> 'p sys" where
  "startCycle s =
     (let c = length (cycles s);
          s1 = s\<lparr>cycles := cycles s @
                  [\<lparr>isActive = True, intervalId = None,
                    c_location = selectedLocation (app s), c_units = units (app s)\<rparr>]\<rparr>;
          s2 = fetchWeather c False s1;
          h = nextTimer s2
      in s2\<lparr>timers := (timers s2)(h \<mapsto> \<lparr>owner = c, due = now s2 + 1000\<rparr>),
            nextTimer := h + 1,
            cycles := (cycles s2)[c := (cycles s2 ! c)\<lparr>intervalId := Some h\<rparr>]\<rparr>)"

text \<open>The cleanup function the effect returns. \<open>if (intervalId)\<close> is false for \<open>null\<close> and for 0.\<close>

definition cleanup :: "nat \<Rightarrow> 'p sys \<Rightarrow> 'p sys" where
  "cleanup c s =
     (let s1 = s\<lparr>cycles := (cycles s)[c := (cycles s ! c)\<lparr>isActive := False\<rparr>]\<rparr>
      in case intervalId (cycles s1 ! c) of
           None \<Rightarrow> s1
         | Some h \<Rightarrow> if h \<noteq> 0 then s1\<lparr>timers := (timers s1)(h := None)\<rparr> else s1)"

text \<open>
  After a handler has run, React renders; when a dependency differs (by
  \<open>Object.is\<close>) from the one the running effect was started with, it runs the
  cleanup and then the effect again.
\<close>

definition depsChanged :: "'p sys \<Rightarrow> bool" where
  "depsChanged s =
     (let cur = last (cycles s)
      in map_option addr_of (selectedLocation (app s)) \<noteq> map_option addr_of (c_location cur)
         \<or> units (app s) \<noteq> c_units cur)"

definition rerender :: "'p sys \<Rightarrow> 'p sys" where
  "rerender s =
     (if cycles s \<noteq> [] \<and> depsChanged s then startCycle (cleanup (length (cycles s) - 1) s)
      else s)"

text \<open>The callback of the interval with handle \<open>h\<close>, run by the browser when it is due.\<close>

definition tick :: "nat \<Rightarrow> 'p sys \<Rightarrow> 'p sys" where
  "tick h s =
     (case timers s h of
        None \<Rightarrow> s
      | Some t \<Rightarrow>
          if now s < due t then s
          else
            let s1 = s\<lparr>timers := (timers s)(h \<mapsto> t\<lparr>due := due t + 1000\<rparr>)\<rparr>;
                c = owner t
            in if isActive (cycles s1 ! c) \<and> c_location (cycles s1 ! c) \<noteq> None
               then fetchWeather c True s1 else s1)"

subsection \<open>Selecting a location\<close>

definition handleLocationSelection :: "platform \<Rightarrow> LocationMatch obj \<Rightarrow> 'p sys \<Rightarrow> 'p sys" where
  "handleLocationSelection P location s =
     (let l = content location;
          newLocation =
            \<lparr>id_loc = id_loc l, name = name l, admin1 = admin1 l, country = country l,
             latitude = latitude l, longitude = longitude l, timezone = timezone l\<rparr>;
          locationString =
            name newLocation @ (if country newLocation \<noteq> [] then '', '' @ country newLocation else []);
          a = (app s)
                \<lparr>selectedLocation := Some (Obj (nextAddr s) newLocation),
                 searchTerm := locationString,
                 searchStatus := search_idle,
                 searchResults := []\<rparr>;
          st = localStorage s;
          st' = (case setItem st ''selectedLocation'' (stringify P newLocation) of
                   Inl error \<Rightarrow> st
                 | Inr st1 \<Rightarrow>
                     (case setItem st1 ''searchTerm'' locationString of
                        Inl error \<Rightarrow> st1
                      | Inr st2 \<Rightarrow> st2))
      in s\<lparr>app := a, localStorage := st', nextAddr := nextAddr s + 1\<rparr>)"

subsection \<open>Searching\<close>

text \<open>\<open>String.prototype.trim\<close> on 8-bit code units: TAB, LF, VT, FF, CR, space, NBSP.\<close>

definition isWhiteSpace :: "char \<Rightarrow> bool" where
  "isWhiteSpace ch =
     (ch \<in> set [CHR 0x09, CHR 0x0A, CHR 0x0B, CHR 0x0C, CHR 0x0D, CHR 0x20, CHR 0xA0])"

definition trim :: "string \<Rightarrow> string" where
  "trim text = rev (dropWhile isWhiteSpace (rev (dropWhile isWhiteSpace text)))"

text \<open>\<open>handleSearch\<close> up to the \<open>await\<close>.\<close>

definition handleSearch :: "'p sys \<Rightarrow> 'p sys" where
  "handleSearch s =
     (let query = trim (searchTerm (app s))
      in if query = [] then
           s\<lparr>app := (app s)
              \<lparr>searchStatus := search_no_results, searchResults := [],
               weatherData := None, weatherStatus := weather_idle\<rparr>\<rparr>
         else
           s\<lparr>app := (app s)\<lparr>searchStatus := search_loading, searchError := None\<rparr>,
             requests := requests s @ [(GeocodeReq query, True)]\<rparr>)"

text \<open>After the \<open>await\<close>: the objects of the result list are new.\<close>

definition handleSearch_resolved :: "LocationMatch list \<Rightarrow> 'p sys \<Rightarrow> 'p sys" where
  "handleSearch_resolved results s =
     (if results = [] then
        s\<lparr>app := (app s)
           \<lparr>searchResults := [], searchStatus := search_no_results,
            weatherData := None, weatherStatus := weather_idle\<rparr>\<rparr>
      else
        s\<lparr>app := (app s)
           \<lparr>searchResults := map (\<lambda>(a, l). Obj a l) (enumerate (nextAddr s) results),
            searchStatus := search_idle\<rparr>,
          nextAddr := nextAddr s + length results\<rparr>)"

definition handleSearch_rejected :: "thrown \<Rightarrow> 'p sys \<Rightarrow> 'p sys" where
  "handleSearch_rejected err s =
     s\<lparr>app := (app s)
        \<lparr>searchStatus := search_error,
         searchError := Some (case err of Error m \<Rightarrow> m | NonError \<Rightarrow> ''Unknown error''),
         weatherData := None, weatherStatus := weather_idle\<rparr>\<rparr>"

subsection \<open>Selecting a day\<close>

text \<open>\<open>setSelectedDay\<close>, handed to the two forecast components as \<open>onSelectDay\<close>.\<close>

definition selectDay :: "string \<Rightarrow> 'p sys \<Rightarrow> 'p sys" where
  "selectDay d s = s\<lparr>app := (app s)\<lparr>selectedDay := Some d\<rparr>\<rparr>"

text \<open>
  The two forecast components, and with them every caller of \<open>onSelectDay\<close>,
  exist only while the forecast section is rendered: status ready, data present,
  search status not no-results. The setter itself accepts any day.
\<close>

definition forecast_shown :: "'p app \<Rightarrow> bool" where
  "forecast_shown a =
     (weatherStatus a = weather_ready \<and> weatherData a \<noteq> None \<and>
      searchStatus a \<noteq> search_no_results)"

subsection \<open>Events\<close>

datatype 'p event =
    Elapse nat
  | Tick nat
  | FetchResolve nat "'p WeatherData"
  | FetchReject nat thrown
  | Edit string
  | Submit
  | GeocodeResolve nat "LocationMatch list"
  | GeocodeReject nat thrown
  | SelectResult nat
  | Retry
  | SetUnits MeasurementSystem
  | SelectDay string
  | Unmount

text \<open>
  One event runs to completion before the next. A response belongs to the
  request \<open>rid\<close> of the log and is delivered once. After the unmount React drops
  every state update.
\<close>

fun step :: "platform \<Rightarrow> 'p event \<Rightarrow> 'p sys \<Rightarrow> 'p sys" where
  "step P (Elapse dt) s = s\<lparr>now := now s + dt\<rparr>"
| "step P (Tick h) s = tick h s"
| "step P (FetchResolve rid data) s =
     (if rid < length (requests s) \<and> snd (requests s ! rid) then
        (case fst (requests s ! rid) of
           ForecastReq c isAutoRefresh \<Rightarrow> fetchWeather_resolved c isAutoRefresh data (settle rid s)
         | GeocodeReq q \<Rightarrow> s)
      else s)"
| "step P (FetchReject rid err) s =
     (if rid < length (requests s) \<and> snd (requests s ! rid) then
        (case fst (requests s ! rid) of
           ForecastReq c isAutoRefresh \<Rightarrow> fetchWeather_rejected c isAutoRefresh err (settle rid s)
         | GeocodeReq q \<Rightarrow> s)
      else s)"
| "step P (Edit text) s = (if mounted s then s\<lparr>app := (app s)\<lparr>searchTerm := text\<rparr>\<rparr> else s)"
| "step P Submit s = (if mounted s then handleSearch s else s)"
| "step P (GeocodeResolve rid results) s =
     (if rid < length (requests s) \<and> snd (requests s ! rid) then
        (case fst (requests s ! rid) of
           ForecastReq c isAutoRefresh \<Rightarrow> s
         | GeocodeReq q \<Rightarrow>
             if mounted s then handleSearch_resolved results (settle rid s) else settle rid s)
      else s)"
| "step P (GeocodeReject rid err) s =
     (if rid < length (requests s) \<and> snd (requests s ! rid) then
        (case fst (requests s ! rid) of
           ForecastReq c isAutoRefresh \<Rightarrow> s
         | GeocodeReq q \<Rightarrow>
             if mounted s then handleSearch_rejected err (settle rid s) else settle rid s)
      else s)"
| "step P (SelectResult i) s =
     (if mounted s \<and> i < length (searchResults (app s)) then
        rerender
          (let s1 = handleLocationSelection P (searchResults (app s) ! i) s
           in s1\<lparr>app := (app s1)\<lparr>searchResults := []\<rparr>\<rparr>)
      else s)"
| "step P Retry s =
     (if mounted s \<and> weatherStatus (app s) = weather_error
         \<and> searchStatus (app s) \<noteq> search_no_results then
        (case selectedLocation (app s) of
           None \<Rightarrow> s
         | Some location \<Rightarrow> rerender (handleLocationSelection P location s))
      else s)"
| "step P (SetUnits u) s =
     (if mounted s then rerender (s\<lparr>app := (app s)\<lparr>units := u\<rparr>\<rparr>) else s)"
| "step P (SelectDay d) s = (if mounted s \<and> forecast_shown (app s) then selectDay d s else s)"
| "step P Unmount s =
     (if mounted s \<and> cycles s \<noteq> [] then (cleanup (length (cycles s) - 1) s)\<lparr>mounted := False\<rparr>
      else s)"

definition run :: "platform \<Rightarrow> 'p event list \<Rightarrow> 'p sys \<Rightarrow> 'p sys" where
  "run P es s = foldl (\<lambda>s e. step P e s) s es"

subsection \<open>Mounting the component\<close>

text \<open>The state of the first render, before the effect has run.\<close>

definition initial :: "LocationMatch option \<Rightarrow> string \<Rightarrow> storage \<Rightarrow> 'p sys" where
  "initial savedLocation savedSearchTerm st =
     \<lparr>app = \<lparr>searchTerm = savedSearchTerm, searchResults = [],
             searchStatus = search_idle, searchError = None,
             selectedLocation = map_option (Obj 0) savedLocation,
             units = metric, weatherData = None, weatherStatus = weather_idle,
             weatherError = None, selectedDay = None\<rparr>,
      localStorage = st, nextAddr = 1, cycles = [], requests = [],
      timers = Map.empty, nextTimer = 1, now = 0, mounted = True\<rparr>"

definition mount :: "platform \<Rightarrow> storage \<Rightarrow> thrown + 'p sys" where
  "mount P st =
     (case loadSavedLocation P st of
        Inl e \<Rightarrow> Inl e
      | Inr savedLocation \<Rightarrow>
          (case loadSavedSearchTerm st of
             Inl e \<Rightarrow> Inl e
           | Inr savedSearchTerm \<Rightarrow>
               Inr (startCycle (initial savedLocation savedSearchTerm st))))"

inductive reachable :: "platform \<Rightarrow> 'p sys \<Rightarrow> bool" for P :: platform where
  reach_mount: "mount P st = Inr s \<Longrightarrow> reachable P s"
| reach_step: "reachable P s \<Longrightarrow> reachable P (step P e s)"

section \<open>Definitions for the statements\<close>

text \<open>The text that \<open>handleLocationSelection\<close> writes into the search box.\<close>

definition canonical :: "LocationMatch \<Rightarrow> string" where
  "canonical l = (if country l = [] then name l else name l @ '', '' @ country l)"

subsection \<open>Invariants of the reachable states\<close>

text \<open>Every forecast request and every registered interval belongs to a cycle that exists.\<close>

definition refs_ok :: "'p sys \<Rightarrow> bool" where
  "refs_ok s =
     ((\<forall>rid < length (requests s). \<forall>c a.
         fst (requests s ! rid) = ForecastReq c a \<longrightarrow> c < length (cycles s)) \<and>
      (\<forall>h t. timers s h = Some t \<longrightarrow> owner t < length (cycles s)))"

text \<open>Only the latest cycle is active, and only while the component is mounted.\<close>

definition single_active :: "'p sys \<Rightarrow> bool" where
  "single_active s =
     (\<forall>c < length (cycles s).
        isActive (cycles s ! c) = (Suc c = length (cycles s) \<and> mounted s))"

text \<open>
  The selected day fits the weather data: with data present it is a key of a
  non-empty \<open>dayOrder\<close> and \<open>null\<close> for an empty one; the status is ready only
  with data present.
\<close>

definition selection_ok :: "'p app \<Rightarrow> bool" where
  "selection_ok a =
     (case weatherData a of
        None \<Rightarrow> weatherStatus a \<noteq> weather_ready
      | Some data \<Rightarrow>
          if dayOrder data = [] then selectedDay a = None
          else (case selectedDay a of None \<Rightarrow> False | Some d \<Rightarrow> d \<in> set (dayOrder data)))"

subsection \<open>Histories\<close>

text \<open>A whole session: mount the component, then handle the events in order.\<close>

definition session :: "platform \<Rightarrow> storage \<Rightarrow> 'p event list \<Rightarrow> thrown + 'p sys" where
  "session P st es = (case mount P st of Inl e \<Rightarrow> Inl e | Inr s \<Rightarrow> Inr (run P es s))"

text \<open>The request log only grows, and an entry changes only by being settled.\<close>

definition extends :: "(request \<times> bool) list \<Rightarrow> (request \<times> bool) list \<Rightarrow> bool" where
  "extends old new =
     (length old \<le> length new \<and>
      (\<forall>i < length old. fst (new ! i) = fst (old ! i) \<and> (snd (new ! i) \<longrightarrow> snd (old ! i))))"

text \<open>
  Cycle \<open>c\<close> has been torn down: its cleanup has run, because a dependency
  changed (then a newer cycle was started right after) or because the component
  was unmounted.
\<close>

definition torn_down :: "'p sys \<Rightarrow> nat \<Rightarrow> bool" where
  "torn_down s c = (c < length (cycles s) \<and> (Suc c < length (cycles s) \<or> \<not> mounted s))"

text \<open>No initial fetch of cycle \<open>c\<close> is in flight.\<close>

definition initial_settled :: "'p sys \<Rightarrow> nat \<Rightarrow> bool" where
  "initial_settled s c =
     (\<forall>i < length (requests s). \<not> (fst (requests s ! i) = ForecastReq c False \<and> snd (requests s ! i)))"

text \<open>Day \<open>d\<close> is a key of the \<open>dayOrder\<close> on display.\<close>

definition live_day :: "'p app \<Rightarrow> string \<Rightarrow> bool" where
  "live_day a d = (case weatherData a of None \<Rightarrow> False | Some data \<Rightarrow> d \<in> set (dayOrder data))"

text \<open>
  Along the events \<open>es\<close> from \<open>s\<close>, every day handed to \<open>onSelectDay\<close> is a
  key of the \<open>dayOrder\<close> on display at that moment.
\<close>

fun picks_live :: "platform \<Rightarrow> 'p event list \<Rightarrow> 'p sys \<Rightarrow> bool" where
  "picks_live P [] s = True"
| "picks_live P (SelectDay d # es) s =
     ((mounted s \<and> forecast_shown (app s) \<longrightarrow> live_day (app s) d) \<and>
      picks_live P es (step P (SelectDay d) s))"
| "picks_live P (e # es) s = picks_live P es (step P e s)"

text \<open>What the storage holds under a key.\<close>

definition persisted :: "string \<Rightarrow> 'p sys \<Rightarrow> string option" where
  "persisted k s = items (localStorage s) k"

subsection \<open>The wording of the specification\<close>

text \<open>
  The invariant as the specification words it: whenever the forecast status is
  ready, the selected day is an element of \<open>dayOrder\<close>.
\<close>

definition ready_selected_in_dayOrder :: "'p app \<Rightarrow> bool" where
  "ready_selected_in_dayOrder a =
     (weatherStatus a = weather_ready \<longrightarrow>
        (case weatherData a of
           None \<Rightarrow> False
         | Some data \<Rightarrow>
             (case selectedDay a of None \<Rightarrow> False | Some d \<Rightarrow> d \<in> set (dayOrder data))))"

text \<open>
  The selected day is the first element of the \<open>dayOrder\<close> on display, the
  \<open>dayOrder[0]\<close> of the specification.
\<close>

definition selected_is_first :: "'p app \<Rightarrow> bool" where
  "selected_is_first a =
     (case weatherData a of
        None \<Rightarrow> False
      | Some data \<Rightarrow> (case dayOrder data of [] \<Rightarrow> False | x # xs \<Rightarrow> selectedDay a = Some x))"

subsection \<open>Concrete inputs\<close>

definition paris :: LocationMatch where
  "paris = \<lparr>id_loc = ''2988507'', name = ''Paris'', admin1 = None, country = ''France'',
            latitude = 48.85, longitude = 2.35, timezone = ''Europe/Paris''\<rparr>"

definition atlantis :: LocationMatch where
  "atlantis = \<lparr>id_loc = ''0'', name = ''Atlantis'', admin1 = None, country = [],
            latitude = 0, longitude = 0, timezone = ''UTC''\<rparr>"

definition demo_platform :: platform where
  "demo_platform =
     \<lparr>parse = (\<lambda>text. if text = ''{Paris}'' then Inr (Some paris)
                      else if text = ''null'' then Inr None
                      else Inl (Error ''SyntaxError'')),
      stringify = (\<lambda>l. ''{'' @ name l @ ''}'')\<rparr>"

definition demo_storage :: "(string \<times> string) list \<Rightarrow> bool \<Rightarrow> storage" where
  "demo_storage kvs writable = \<lparr>items = map_of kvs, readable = True, accepts = (\<lambda>k v. writable)\<rparr>"

text \<open>The component mounted on an empty storage: the default location, the first cycle started.\<close>

definition demo_mounted :: "unit sys" where
  "demo_mounted =
     startCycle (initial (Some DEFAULT_LOCATION) ''San Francisco, United States''
       (demo_storage [] True))"

text \<open>
  A later state of that session: the forecast has arrived, the user has picked
  the second day, searched for Paris and got two matches, blanked the search box,
  and the first auto-refresh request is in flight.
\<close>

definition demo_sys :: "unit sys" where
  "demo_sys =
     run demo_platform
       [FetchResolve 0 \<lparr>dayOrder = [''2024-05-01'', ''2024-05-02''], rest = ()\<rparr>,
        SelectDay ''2024-05-02'', Edit ''Paris'', Submit, GeocodeResolve 1 [paris, atlantis],
        Edit ''  '', Elapse 1000, Tick 1, Elapse 500]
       demo_mounted"

section \<open>Frame lemmas\<close>

lemma settle_simps [simp]:
  "app (settle rid s) = app s" "cycles (settle rid s) = cycles s"
  "timers (settle rid s) = timers s" "mounted (settle rid s) = mounted s"
  "localStorage (settle rid s) = localStorage s" "now (settle rid s) = now s"
  "nextAddr (settle rid s) = nextAddr s" "nextTimer (settle rid s) = nextTimer s"
  "length (requests (settle rid s)) = length (requests s)"
  by (simp_all add: settle_def)

lemma settle_fst [simp]:
  "i < length (requests s) \<Longrightarrow> fst (requests (settle rid s) ! i) = fst (requests s ! i)"
  by (cases "i = rid") (simp_all add: settle_def)

lemma settle_snd:
  "i < length (requests s) \<Longrightarrow>
   snd (requests (settle rid s) ! i) = (if i = rid then False else snd (requests s ! i))"
  by (simp add: settle_def nth_list_update)

lemma fetchWeather_frame [simp]:
  "cycles (fetchWeather c a s) = cycles s" "timers (fetchWeather c a s) = timers s"
  "mounted (fetchWeather c a s) = mounted s" "localStorage (fetchWeather c a s) = localStorage s"
  "now (fetchWeather c a s) = now s" "nextAddr (fetchWeather c a s) = nextAddr s"
  "nextTimer (fetchWeather c a s) = nextTimer s"
  by (simp_all add: fetchWeather_def Let_def split: option.splits)

lemma fetchWeather_requests:
  "requests (fetchWeather c a s) =
     (if c_location (cycles s ! c) = None then requests s
      else requests s @ [(ForecastReq c a, True)])"
  by (simp add: fetchWeather_def Let_def split: option.splits)

lemma fetchWeather_app:
  "app (fetchWeather c a s) =
     (if c_location (cycles s ! c) = None then app s
      else if a then (app s)\<lparr>weatherError := None\<rparr>
      else (app s)\<lparr>weatherStatus := weather_loading, weatherError := None\<rparr>)"
  by (simp add: fetchWeather_def Let_def split: option.splits)

lemma resolved_frame [simp]:
  "cycles (fetchWeather_resolved c a d s) = cycles s"
  "timers (fetchWeather_resolved c a d s) = timers s"
  "mounted (fetchWeather_resolved c a d s) = mounted s"
  "requests (fetchWeather_resolved c a d s) = requests s"
  "localStorage (fetchWeather_resolved c a d s) = localStorage s"
  "now (fetchWeather_resolved c a d s) = now s"
  "nextAddr (fetchWeather_resolved c a d s) = nextAddr s"
  "nextTimer (fetchWeather_resolved c a d s) = nextTimer s"
  by (simp_all add: fetchWeather_resolved_def)

lemma rejected_frame [simp]:
  "cycles (fetchWeather_rejected c a e s) = cycles s"
  "timers (fetchWeather_rejected c a e s) = timers s"
  "mounted (fetchWeather_rejected c a e s) = mounted s"
  "requests (fetchWeather_rejected c a e s) = requests s"
  "localStorage (fetchWeather_rejected c a e s) = localStorage s"
  "now (fetchWeather_rejected c a e s) = now s"
  "nextAddr (fetchWeather_rejected c a e s) = nextAddr s"
  "nextTimer (fetchWeather_rejected c a e s) = nextTimer s"
  by (simp_all add: fetchWeather_rejected_def)

lemma startCycle_cycles:
  "cycles (startCycle s) =
     cycles s @ [\<lparr>isActive = True, intervalId = Some (nextTimer s),
                  c_location = selectedLocation (app s), c_units = units (app s)\<rparr>]"
  by (simp add: startCycle_def Let_def)

lemma startCycle_timers:
  "timers (startCycle s) =
     (timers s)(nextTimer s \<mapsto> \<lparr>owner = length (cycles s), due = now s + 1000\<rparr>)"
  by (simp add: startCycle_def Let_def)

lemma startCycle_requests:
  "requests (startCycle s) =
     (if selectedLocation (app s) = None then requests s
      else requests s @ [(ForecastReq (length (cycles s)) False, True)])"
  by (simp add: startCycle_def Let_def fetchWeather_requests)

lemma startCycle_app:
  "app (startCycle s) =
     (if selectedLocation (app s) = None then app s
      else (app s)\<lparr>weatherStatus := weather_loading, weatherError := None\<rparr>)"
  by (simp add: startCycle_def Let_def fetchWeather_app)

lemma startCycle_frame [simp]:
  "mounted (startCycle s) = mounted s" "localStorage (startCycle s) = localStorage s"
  "now (startCycle s) = now s" "nextAddr (startCycle s) = nextAddr s"
  "nextTimer (startCycle s) = Suc (nextTimer s)"
  by (simp_all add: startCycle_def Let_def)

lemma cleanup_frame [simp]:
  "app (cleanup c s) = app s" "requests (cleanup c s) = requests s"
  "mounted (cleanup c s) = mounted s" "localStorage (cleanup c s) = localStorage s"
  "now (cleanup c s) = now s" "nextAddr (cleanup c s) = nextAddr s"
  "nextTimer (cleanup c s) = nextTimer s"
  "cycles (cleanup c s) = (cycles s)[c := (cycles s ! c)\<lparr>isActive := False\<rparr>]"
  by (simp_all add: cleanup_def Let_def split: option.splits)

lemma cleanup_timers:
  "timers (cleanup c s) h = Some t \<Longrightarrow> timers s h = Some t"
  by (simp add: cleanup_def Let_def split: option.splits if_splits)

lemma tick_frame [simp]:
  "cycles (tick h s) = cycles s" "mounted (tick h s) = mounted s"
  "localStorage (tick h s) = localStorage s" "now (tick h s) = now s"
  "nextAddr (tick h s) = nextAddr s" "nextTimer (tick h s) = nextTimer s"
  by (simp_all add: tick_def Let_def split: option.splits)

lemma handleLocationSelection_frame [simp]:
  "cycles (handleLocationSelection P l s) = cycles s"
  "timers (handleLocationSelection P l s) = timers s"
  "mounted (handleLocationSelection P l s) = mounted s"
  "requests (handleLocationSelection P l s) = requests s"
  "now (handleLocationSelection P l s) = now s"
  "nextAddr (handleLocationSelection P l s) = Suc (nextAddr s)"
  "nextTimer (handleLocationSelection P l s) = nextTimer s"
  by (simp_all add: handleLocationSelection_def Let_def)

lemma handleSearch_frame [simp]:
  "cycles (handleSearch s) = cycles s" "timers (handleSearch s) = timers s"
  "mounted (handleSearch s) = mounted s" "localStorage (handleSearch s) = localStorage s"
  "now (handleSearch s) = now s" "nextAddr (handleSearch s) = nextAddr s"
  "nextTimer (handleSearch s) = nextTimer s"
  by (simp_all add: handleSearch_def Let_def)

lemma handleSearch_done_frame [simp]:
  "cycles (handleSearch_resolved rs s) = cycles s" "timers (handleSearch_resolved rs s) = timers s"
  "mounted (handleSearch_resolved rs s) = mounted s"
  "requests (handleSearch_resolved rs s) = requests s"
  "cycles (handleSearch_rejected e s) = cycles s" "timers (handleSearch_rejected e s) = timers s"
  "mounted (handleSearch_rejected e s) = mounted s"
  "requests (handleSearch_rejected e s) = requests s"
  by (simp_all add: handleSearch_resolved_def handleSearch_rejected_def)

lemma selectDay_frame [simp]:
  "cycles (selectDay d s) = cycles s" "timers (selectDay d s) = timers s"
  "mounted (selectDay d s) = mounted s" "requests (selectDay d s) = requests s"
  by (simp_all add: selectDay_def)

lemma copy_fields:
  "\<lparr>id_loc = id_loc l, name = name l, admin1 = admin1 l, country = country l,
    latitude = latitude l, longitude = longitude l, timezone = timezone l\<rparr> = (l :: LocationMatch)"
  by (cases l) simp

lemma handleLocationSelection_app:
  "app (handleLocationSelection P location s) =
     (app s)\<lparr>selectedLocation := Some (Obj (nextAddr s) (content location)),
             searchTerm := canonical (content location),
             searchStatus := search_idle, searchResults := []\<rparr>"
  by (simp add: handleLocationSelection_def Let_def copy_fields canonical_def)

lemma handleLocationSelection_storage:
  "localStorage (handleLocationSelection P location s) =
     (case setItem (localStorage s) ''selectedLocation'' (stringify P (content location)) of
        Inl e \<Rightarrow> localStorage s
      | Inr st1 \<Rightarrow>
          (case setItem st1 ''searchTerm'' (canonical (content location)) of
             Inl e \<Rightarrow> st1 | Inr st2 \<Rightarrow> st2))"
  by (simp add: handleLocationSelection_def Let_def copy_fields canonical_def
      split: sum.splits)

section \<open>The invariants are preserved\<close>

lemma refs_ok_settle: "refs_ok s \<Longrightarrow> refs_ok (settle rid s)"
  by (auto simp: refs_ok_def)

lemma refs_ok_app_update: "refs_ok (s\<lparr>app := a\<rparr>) = refs_ok s"
  by (simp add: refs_ok_def)

lemma refs_ok_fetchWeather:
  "refs_ok s \<Longrightarrow> c < length (cycles s) \<Longrightarrow> refs_ok (fetchWeather c a s)"
  by (auto simp: refs_ok_def fetchWeather_requests nth_append)

lemma refs_ok_resolved: "refs_ok s \<Longrightarrow> refs_ok (fetchWeather_resolved c a d s)"
  by (simp add: refs_ok_def)

lemma refs_ok_rejected: "refs_ok s \<Longrightarrow> refs_ok (fetchWeather_rejected c a e s)"
  by (simp add: refs_ok_def)

lemma refs_ok_cleanup: "refs_ok s \<Longrightarrow> refs_ok (cleanup c s)"
  by (auto simp: refs_ok_def dest: cleanup_timers)

lemma refs_ok_startCycle: "refs_ok s \<Longrightarrow> refs_ok (startCycle s)"
  unfolding refs_ok_def
  by (auto simp: startCycle_cycles startCycle_timers startCycle_requests nth_append less_Suc_eq
      split: if_splits)

lemma refs_ok_rerender: "refs_ok s \<Longrightarrow> refs_ok (rerender s)"
  by (simp add: rerender_def refs_ok_startCycle refs_ok_cleanup)

lemma refs_ok_tick: "refs_ok s \<Longrightarrow> refs_ok (tick h s)"
proof -
  assume r: "refs_ok s"
  show ?thesis
  proof (cases "timers s h")
    case None
    with r show ?thesis by (simp add: tick_def)
  next
    case (Some t)
    from r Some have o: "owner t < length (cycles s)" by (simp add: refs_ok_def)
    from r Some have r1: "refs_ok (s\<lparr>timers := (timers s)(h \<mapsto> t\<lparr>due := due t + 1000\<rparr>)\<rparr>)"
      by (auto simp: refs_ok_def)
    from Some o r r1 show ?thesis
      by (simp add: tick_def Let_def refs_ok_fetchWeather)
  qed
qed

lemma refs_ok_handleLocationSelection: "refs_ok s \<Longrightarrow> refs_ok (handleLocationSelection P l s)"
  by (simp add: refs_ok_def)

lemma refs_ok_handleSearch: "refs_ok s \<Longrightarrow> refs_ok (handleSearch s)"
  by (auto simp: refs_ok_def handleSearch_def Let_def nth_append)

lemma refs_ok_handleSearch_done:
  "refs_ok s \<Longrightarrow> refs_ok (handleSearch_resolved rs s)"
  "refs_ok s \<Longrightarrow> refs_ok (handleSearch_rejected e s)"
  by (simp_all add: refs_ok_def)

lemma refs_ok_mounted_update: "refs_ok (s\<lparr>mounted := b\<rparr>) = refs_ok s"
  by (simp add: refs_ok_def)

lemma refs_ok_now_update: "refs_ok (s\<lparr>now := n\<rparr>) = refs_ok s"
  by (simp add: refs_ok_def)

lemma refs_ok_selectDay: "refs_ok (selectDay d s) = refs_ok s"
  by (simp add: refs_ok_def)

lemmas refs_ok_intros =
  refs_ok_settle refs_ok_fetchWeather refs_ok_resolved refs_ok_rejected refs_ok_cleanup
  refs_ok_startCycle refs_ok_rerender refs_ok_tick refs_ok_handleLocationSelection
  refs_ok_handleSearch refs_ok_handleSearch_done

lemma refs_ok_step: "refs_ok s \<Longrightarrow> refs_ok (step P e s)"
  by (cases e)
    (simp_all add: refs_ok_intros refs_ok_app_update refs_ok_mounted_update refs_ok_now_update
      refs_ok_selectDay Let_def split: request.splits option.splits)

lemma cycles_step_nonempty: "cycles s \<noteq> [] \<Longrightarrow> cycles (step P e s) \<noteq> []"
  by (cases e)
    (simp_all add: rerender_def startCycle_cycles Let_def split: request.splits option.splits)

lemma single_active_frame:
  "cycles s' = cycles s \<Longrightarrow> mounted s' = mounted s \<Longrightarrow> single_active s \<Longrightarrow> single_active s'"
  by (simp add: single_active_def)

lemma single_active_restart:
  assumes "single_active s" and "mounted s" and "cycles s \<noteq> []"
  shows "single_active (startCycle (cleanup (length (cycles s) - Suc 0) s))"
  using assms unfolding single_active_def
  by (auto simp: startCycle_cycles nth_append nth_list_update less_Suc_eq)

lemma single_active_rerender:
  "single_active s \<Longrightarrow> mounted s \<Longrightarrow> single_active (rerender s)"
  by (simp add: rerender_def single_active_restart)

lemma single_active_app_update [simp]: "single_active (s\<lparr>app := a\<rparr>) = single_active s"
  by (simp add: single_active_def)

lemma single_active_now_update [simp]: "single_active (s\<lparr>now := n\<rparr>) = single_active s"
  by (simp add: single_active_def)

lemma single_active_unmount:
  "single_active s \<Longrightarrow>
   single_active ((cleanup (length (cycles s) - Suc 0) s)\<lparr>mounted := False\<rparr>)"
  by (auto simp: single_active_def nth_list_update)

lemma single_active_step: "single_active s \<Longrightarrow> single_active (step P e s)"
proof (cases e)
  case (SelectResult i)
  assume "single_active s"
  then show ?thesis using SelectResult
    by (auto simp: Let_def intro!: single_active_rerender elim: single_active_frame [rotated 2])
next
  case Retry
  assume "single_active s"
  then show ?thesis using Retry
    by (auto simp: Let_def split: option.splits intro!: single_active_rerender
        elim: single_active_frame [rotated 2])
next
  case (SetUnits u)
  assume "single_active s"
  then show ?thesis using SetUnits
    by (auto intro!: single_active_rerender)
next
  case Unmount
  assume "single_active s"
  then show ?thesis using Unmount by (simp add: single_active_unmount)
qed (auto elim!: single_active_frame [rotated 2] split: request.splits)

lemma selection_ok_iff:
  "selection_ok a \<longleftrightarrow>
     (weatherStatus a = weather_ready \<longrightarrow> weatherData a \<noteq> None) \<and>
     (\<forall>data. weatherData a = Some data \<longrightarrow>
        (dayOrder data = [] \<longrightarrow> selectedDay a = None) \<and>
        (dayOrder data \<noteq> [] \<longrightarrow> (\<exists>d. selectedDay a = Some d \<and> d \<in> set (dayOrder data))))"
  by (auto simp: selection_ok_def split: option.splits)

lemma dayOrder0_mem: "order \<noteq> [] \<Longrightarrow> \<exists>d. dayOrder0 order = Some d \<and> d \<in> set order"
  by (cases order) (simp_all add: dayOrder0_def)

lemma sticky_mem: "order \<noteq> [] \<Longrightarrow> \<exists>d. sticky prev order = Some d \<and> d \<in> set order"
  using dayOrder0_mem [of order] by (auto simp: sticky_def split: option.splits)

lemma sticky_empty [simp]: "sticky prev [] = None" "dayOrder0 [] = None"
  by (simp_all add: sticky_def dayOrder0_def split: option.splits)

lemma selection_ok_resolved:
  "selection_ok (app s) \<Longrightarrow> selection_ok (app (fetchWeather_resolved c a d s))"
  using dayOrder0_mem [of "dayOrder d"] sticky_mem [of "dayOrder d" "selectedDay (app s)"]
  by (auto simp: selection_ok_iff fetchWeather_resolved_def)

lemma selection_ok_rejected:
  "selection_ok (app s) \<Longrightarrow> selection_ok (app (fetchWeather_rejected c a e s))"
  by (auto simp: selection_ok_iff fetchWeather_rejected_def split: option.splits)

lemma selection_ok_fetchWeather:
  "selection_ok (app s) \<Longrightarrow> selection_ok (app (fetchWeather c a s))"
  by (auto simp: selection_ok_iff fetchWeather_app split: option.splits)

lemma selection_ok_startCycle:
  "selection_ok (app s) \<Longrightarrow> selection_ok (app (startCycle s))"
  by (auto simp: selection_ok_iff startCycle_app split: option.splits)

lemma selection_ok_rerender:
  "selection_ok (app s) \<Longrightarrow> selection_ok (app (rerender s))"
  by (simp add: rerender_def selection_ok_startCycle)

lemma selection_ok_tick:
  "selection_ok (app s) \<Longrightarrow> selection_ok (app (tick h s))"
proof (cases "timers s h")
  case None
  assume "selection_ok (app s)"
  with None show ?thesis by (simp add: tick_def)
next
  case (Some t)
  assume a: "selection_ok (app s)"
  have "selection_ok (app (fetchWeather (owner t) True
          (s\<lparr>timers := (timers s)(h \<mapsto> t\<lparr>due := due t + 1000\<rparr>)\<rparr>)))"
    by (rule selection_ok_fetchWeather) (simp add: a)
  with a Some show ?thesis by (simp add: tick_def Let_def)
qed

lemma selection_ok_handlers:
  "selection_ok (app s) \<Longrightarrow> selection_ok (app (handleSearch s))"
  "selection_ok (app s) \<Longrightarrow> selection_ok (app (handleSearch_resolved rs s))"
  "selection_ok (app s) \<Longrightarrow> selection_ok (app (handleSearch_rejected e s))"
  "selection_ok (app s) \<Longrightarrow> selection_ok (app (handleLocationSelection P l s))"
  by (auto simp: selection_ok_iff handleSearch_def handleSearch_resolved_def
      handleSearch_rejected_def handleLocationSelection_app Let_def split: option.splits)

lemma selection_ok_selectDay:
  "forecast_shown (app s) \<Longrightarrow> live_day (app s) d \<Longrightarrow> selection_ok (app (selectDay d s))"
  by (auto simp: selection_ok_iff forecast_shown_def live_day_def selectDay_def
      split: option.splits)

lemma selection_ok_searchResults [simp]:
  "selection_ok (a\<lparr>searchResults := r\<rparr>) = selection_ok a"
  "selection_ok (a\<lparr>searchTerm := t\<rparr>) = selection_ok a"
  "selection_ok (a\<lparr>units := u\<rparr>) = selection_ok a"
  by (simp_all add: selection_ok_iff)

lemma selection_ok_step:
  assumes "selection_ok (app s)"
    and "\<And>d. e = SelectDay d \<Longrightarrow> mounted s \<Longrightarrow> forecast_shown (app s) \<Longrightarrow> live_day (app s) d"
  shows "selection_ok (app (step P e s))"
  using assms
  by (cases e)
    (auto simp: Let_def selection_ok_resolved selection_ok_rejected selection_ok_tick
      selection_ok_handlers selection_ok_selectDay
      intro!: selection_ok_rerender split: request.splits option.splits)

section \<open>What a step can change\<close>

lemma rerender_frame [simp]:
  "mounted (rerender s) = mounted s" "localStorage (rerender s) = localStorage s"
  "now (rerender s) = now s" "nextAddr (rerender s) = nextAddr s"
  by (simp_all add: rerender_def)

lemma rerender_cycles_length: "length (cycles s) \<le> length (cycles (rerender s))"
  by (simp add: rerender_def startCycle_cycles)

lemma length_cycles_step: "length (cycles s) \<le> length (cycles (step P e s))"
  by (cases e)
    (auto simp: Let_def startCycle_cycles rerender_def split: request.splits option.splits)

lemma mounted_step: "mounted (step P e s) \<Longrightarrow> mounted s"
  by (cases e) (auto simp: Let_def split: request.splits option.splits if_splits)

lemma extends_refl [simp]: "extends rs rs"
  by (simp add: extends_def)

lemma extends_append [simp]: "extends rs (rs @ ys)"
  by (simp add: extends_def nth_append)

lemma extends_settle [simp]: "extends (requests s) (requests (settle rid s))"
  by (auto simp: extends_def settle_snd)

lemma extends_rerender:
  "requests s' = requests s \<Longrightarrow> extends (requests s) (requests (rerender s'))"
  by (simp add: rerender_def startCycle_requests)

lemma extends_tick: "extends (requests s) (requests (tick h s))"
  by (simp add: tick_def Let_def fetchWeather_requests split: option.splits)

lemma extends_step: "extends (requests s) (requests (step P e s))"
  by (cases e)
    (auto simp: Let_def extends_tick handleSearch_def extends_rerender
      split: request.splits option.splits)

section \<open>Reachable states\<close>

lemma mount_inv:
  assumes "mount P st = Inr s"
  shows "refs_ok s \<and> single_active s \<and> selection_ok (app s) \<and> cycles s \<noteq> []"
proof -
  from assms obtain l t where s: "s = startCycle (initial l t st)"
    by (auto simp: mount_def split: sum.splits)
  have "refs_ok (initial l t st :: 'a sys)" by (simp add: refs_ok_def initial_def)
  then have 1: "refs_ok s" unfolding s by (rule refs_ok_startCycle)
  have 2: "single_active s"
    unfolding s by (simp add: single_active_def startCycle_cycles initial_def)
  have "selection_ok (app (initial l t st :: 'a sys))"
    by (simp add: selection_ok_def initial_def)
  then have 3: "selection_ok (app s)" unfolding s by (rule selection_ok_startCycle)
  have 4: "cycles s \<noteq> []" unfolding s by (simp add: startCycle_cycles)
  from 1 2 3 4 show ?thesis by simp
qed

lemma reachable_inv:
  "reachable P s \<Longrightarrow> refs_ok s \<and> single_active s \<and> cycles s \<noteq> []"
proof (induction rule: reachable.induct)
  case (reach_mount st s)
  then show ?case using mount_inv [of P st s] by simp
next
  case (reach_step s e)
  then show ?case
    by (simp add: refs_ok_step single_active_step cycles_step_nonempty)
qed

lemma selection_ok_run:
  "selection_ok (app s) \<Longrightarrow> picks_live P es s \<Longrightarrow> selection_ok (app (run P es s))"
proof (induction es arbitrary: s)
  case Nil
  then show ?case by (simp add: run_def)
next
  case (Cons e es)
  from Cons.prems have step_ok: "selection_ok (app (step P e s))"
    by (intro selection_ok_step) auto
  from Cons.prems(2) have "picks_live P es (step P e s)" by (cases e) simp_all
  with step_ok have "selection_ok (app (run P es (step P e s)))" by (rule Cons.IH)
  then show ?case by (simp add: run_def)
qed

lemma reachable_run: "reachable P s \<Longrightarrow> reachable P (run P es s)"
proof (induction es arbitrary: s)
  case Nil
  then show ?case by (simp add: run_def)
next
  case (Cons e es)
  from Cons.prems have "reachable P (step P e s)" by (rule reach_step)
  then have "reachable P (run P es (step P e s))" by (rule Cons.IH)
  then show ?case by (simp add: run_def)
qed

lemma demo_mounted_mount: "mount demo_platform (demo_storage [] True) = Inr demo_mounted"
  by (simp add: mount_def loadSavedLocation_def loadSavedSearchTerm_def try_catch_def getItem_def
      demo_storage_def demo_mounted_def DEFAULT_LOCATION_def)

lemma demo_mounted_reachable: "reachable demo_platform demo_mounted"
  using demo_mounted_mount by (rule reach_mount)

lemma demo_mounted_eq:
  "demo_mounted =
     \<lparr>app = \<lparr>searchTerm = ''San Francisco, United States'', searchResults = [],
             searchStatus = search_idle, searchError = None,
             selectedLocation = Some (Obj 0 DEFAULT_LOCATION),
             units = metric, weatherData = None, weatherStatus = weather_loading,
             weatherError = None, selectedDay = None\<rparr>,
      localStorage = demo_storage [] True, nextAddr = 1,
      cycles = [\<lparr>isActive = True, intervalId = Some 1,
                 c_location = Some (Obj 0 DEFAULT_LOCATION), c_units = metric\<rparr>],
      requests = [(ForecastReq 0 False, True)],
      timers = [1 \<mapsto> \<lparr>owner = 0, due = 1000\<rparr>], nextTimer = 2, now = 0, mounted = True\<rparr>"
  by (simp add: demo_mounted_def startCycle_def initial_def fetchWeather_def Let_def)

lemmas eval_defs =
  session_def run_def demo_mounted_eq settle_def tick_def fetchWeather_def
  fetchWeather_resolved_def fetchWeather_rejected_def Let_def forecast_shown_def selectDay_def
  sticky_def dayOrder0_def

lemma demo_sys_eq:
  "demo_sys =
     \<lparr>app = \<lparr>searchTerm = ''  '', searchResults = [Obj 1 paris, Obj 2 atlantis],
             searchStatus = search_idle, searchError = None,
             selectedLocation = Some (Obj 0 DEFAULT_LOCATION),
             units = metric,
             weatherData = Some \<lparr>dayOrder = [''2024-05-01'', ''2024-05-02''], rest = ()\<rparr>,
             weatherStatus = weather_ready,
             weatherError = None, selectedDay = Some ''2024-05-02''\<rparr>,
      localStorage = demo_storage [] True, nextAddr = 3,
      cycles = [\<lparr>isActive = True, intervalId = Some 1,
                 c_location = Some (Obj 0 DEFAULT_LOCATION), c_units = metric\<rparr>],
      requests = [(ForecastReq 0 False, False), (GeocodeReq ''Paris'', False),
                  (ForecastReq 0 True, True)],
      timers = [1 \<mapsto> \<lparr>owner = 0, due = 2000\<rparr>], nextTimer = 2, now = 1500, mounted = True\<rparr>"
  by (simp add: demo_sys_def eval_defs handleSearch_def handleSearch_resolved_def trim_def
      isWhiteSpace_def enumerate_eq_zip)

lemma demo_sys_reachable: "reachable demo_platform demo_sys"
  unfolding demo_sys_def by (rule reachable_run [OF demo_mounted_reachable])

section \<open>Persistence\<close>

text \<open>
  Claim C9. Loading the persisted location never raises. Whatever the storage
  holds: when the value is absent (or the storage cannot be read) or its text does
  not parse, the result is the compiled-in default location; otherwise it is the
  parsed value. Loading the search term never raises either, and falls back to
  the default city's canonical text. The code tests \<open>if (saved)\<close>, so an empty
  stored text is never handed to \<open>JSON.parse\<close>; the only fact about
  \<open>JSON.parse\<close> that is used is that it throws on the empty text.
\<close>

theorem loadSaved_never_raises:
  assumes "isl (parse P [])"
  shows "(\<exists>v. loadSavedLocation P st = Inr v) \<and>
         (absent st ''selectedLocation'' \<longrightarrow> loadSavedLocation P st = Inr (Some DEFAULT_LOCATION)) \<and>
         (\<forall>saved. stored st ''selectedLocation'' saved \<longrightarrow>
            loadSavedLocation P st =
              (case parse P saved of Inl e \<Rightarrow> Inr (Some DEFAULT_LOCATION) | Inr v \<Rightarrow> Inr v)) \<and>
         (\<exists>t. loadSavedSearchTerm st = Inr t) \<and>
         (absent st ''searchTerm'' \<longrightarrow>
            loadSavedSearchTerm st = Inr ''San Francisco, United States'')"
  using assms
  by (auto simp: loadSavedLocation_def loadSavedSearchTerm_def try_catch_def absent_def
      stored_def DEFAULT_LOCATION_def isl_def split: sum.splits option.splits if_splits)

theorem loadSaved_never_raises_witness:
  "isl (parse demo_platform []) \<and>
   loadSavedLocation demo_platform (demo_storage [(''selectedLocation'', ''{Paris}'')] True) = Inr (Some paris) \<and>
   loadSavedLocation demo_platform (demo_storage [(''selectedLocation'', ''{Par'')] True) = Inr (Some DEFAULT_LOCATION) \<and>
   loadSavedSearchTerm (demo_storage [] True) = Inr ''San Francisco, United States''"
  using loadSaved_never_raises [of demo_platform "demo_storage [(''selectedLocation'', ''{Paris}'')] True"]
    loadSaved_never_raises [of demo_platform "demo_storage [(''selectedLocation'', ''{Par'')] True"]
    loadSaved_never_raises [of demo_platform "demo_storage [] True"]
  by (simp add: demo_platform_def demo_storage_def stored_def absent_def getItem_def)

section \<open>Selecting a search result\<close>

text \<open>
  Claim C8, as the code has it. \<open>handleLocationSelection\<close> publishes a new object
  with the contents of the location it was given (its address is the next free
  one, so it differs from every object built before), empties the result list,
  sets the search status to idle and writes the canonical text into the search
  box: \<open>name, country\<close> when the country is not empty and the name alone when
  it is. When the storage accepts the two writes, the location and that text are
  persisted.
\<close>

theorem handleLocationSelection_effect:
  "selectedLocation (app (handleLocationSelection P location s)) =
     Some (Obj (nextAddr s) (content location)) \<and>
   (addr_of location < nextAddr s \<longrightarrow>
      selectedLocation (app (handleLocationSelection P location s)) \<noteq> Some location) \<and>
   searchResults (app (handleLocationSelection P location s)) = [] \<and>
   searchStatus (app (handleLocationSelection P location s)) = search_idle \<and>
   searchTerm (app (handleLocationSelection P location s)) = canonical (content location) \<and>
   (accepts (localStorage s) ''selectedLocation'' (stringify P (content location)) \<and>
    accepts (localStorage s) ''searchTerm'' (canonical (content location)) \<longrightarrow>
      items (localStorage (handleLocationSelection P location s)) ''selectedLocation'' =
        Some (stringify P (content location)) \<and>
      items (localStorage (handleLocationSelection P location s)) ''searchTerm'' =
        Some (canonical (content location)))"
  by (cases location)
    (simp add: handleLocationSelection_app handleLocationSelection_storage setItem_def)

text \<open>
  The claim as stated fails for a location without a country on a storage that
  rejects writes: the user searches, gets two matches and selects the second;
  the text is not \<open>name, country\<close> and nothing is persisted.
\<close>

theorem handleLocationSelection_counterexample:
  "map_sum id (searchTerm \<circ> app)
     (session demo_platform (demo_storage [] False)
        [Edit ''Atlantis'', Submit, GeocodeResolve 1 [paris, atlantis],
         SelectResult 1 :: unit event]) = Inr ''Atlantis'' \<and>
   ''Atlantis'' \<noteq> name atlantis @ '', '' @ country atlantis \<and>
   map_sum id (persisted ''selectedLocation'')
     (session demo_platform (demo_storage [] False)
        [Edit ''Atlantis'', Submit, GeocodeResolve 1 [paris, atlantis],
         SelectResult 1 :: unit event]) = Inr None \<and>
   map_sum id (persisted ''searchTerm'')
     (session demo_platform (demo_storage [] False)
        [Edit ''Atlantis'', Submit, GeocodeResolve 1 [paris, atlantis],
         SelectResult 1 :: unit event]) = Inr None"
  by (simp add: session_def mount_def loadSavedLocation_def loadSavedSearchTerm_def
      try_catch_def getItem_def initial_def startCycle_def
      run_def settle_def fetchWeather_def Let_def handleSearch_def handleSearch_resolved_def
      trim_def isWhiteSpace_def enumerate_eq_zip handleLocationSelection_def setItem_def
      rerender_def depsChanged_def cleanup_def persisted_def demo_storage_def atlantis_def
      paris_def DEFAULT_LOCATION_def)

theorem handleLocationSelection_effect_witness:
  "addr_of (Obj 1 paris) < nextAddr demo_sys \<and>
   accepts (localStorage demo_sys) ''selectedLocation'' (stringify demo_platform paris) \<and>
   accepts (localStorage demo_sys) ''searchTerm'' ''Paris, France'' \<and>
   selectedLocation (app (handleLocationSelection demo_platform (Obj 1 paris) demo_sys)) = Some (Obj 3 paris) \<and>
   searchTerm (app (handleLocationSelection demo_platform (Obj 1 paris) demo_sys)) = ''Paris, France'' \<and>
   items (localStorage (handleLocationSelection demo_platform (Obj 1 paris) demo_sys)) ''selectedLocation'' = Some ''{Paris}'' \<and>
   items (localStorage (handleLocationSelection demo_platform (Obj 1 paris) demo_sys)) ''searchTerm'' = Some ''Paris, France''"
  using handleLocationSelection_effect [of demo_platform "Obj 1 paris" demo_sys]
  by (simp add: demo_sys_eq demo_storage_def demo_platform_def paris_def canonical_def)

section \<open>Submitting a query\<close>

text \<open>
  Claim C7. Submitting a query whose trimmed text is empty sets the search status
  to no-results, empties the result list, removes the weather data, resets the
  forecast status to idle, changes nothing else of the state and issues no
  network call.
\<close>

theorem submit_empty_query:
  assumes "mounted s" and "trim (searchTerm (app s)) = []"
  shows "app (step P Submit s) =
           (app s)\<lparr>searchStatus := search_no_results, searchResults := [],
                   weatherData := None, weatherStatus := weather_idle\<rparr> \<and>
         requests (step P Submit s) = requests s"
  using assms by (simp add: handleSearch_def)

theorem submit_empty_query_witness:
  "mounted demo_sys \<and> trim (searchTerm (app demo_sys)) = [] \<and>
   searchStatus (app (step demo_platform Submit demo_sys)) = search_no_results \<and>
   searchResults (app (step demo_platform Submit demo_sys)) = [] \<and>
   weatherData (app (step demo_platform Submit demo_sys)) = None \<and>
   weatherStatus (app (step demo_platform Submit demo_sys)) = weather_idle \<and>
   requests (step demo_platform Submit demo_sys) = requests demo_sys"
proof -
  have m: "mounted demo_sys" by (simp add: demo_sys_eq)
  have t: "trim (searchTerm (app demo_sys)) = []"
    by (simp add: demo_sys_eq trim_def isWhiteSpace_def)
  from submit_empty_query [OF m t, of demo_platform] m t show ?thesis by simp
qed

section \<open>The forecast cycle\<close>

text \<open>
  Claim C6, as the code has it. The initial fetch of a cycle sets the status to
  loading and then issues its request. When the response arrives while the cycle
  is still active: on success the status becomes ready, the payload replaces the
  weather data and the selected day becomes the first element of the new
  \<open>dayOrder\<close>, or \<open>null\<close> when that is empty; on failure the status becomes
  error with the message captured by the \<open>catch\<close> block.
\<close>

theorem initial_fetch:
  "(selectedLocation (app s) \<noteq> None \<longrightarrow>
      weatherStatus (app (startCycle s)) = weather_loading \<and>
      requests (startCycle s) = requests s @ [(ForecastReq (length (cycles s)) False, True)]) \<and>
   (rid < length (requests s) \<and> requests s ! rid = (ForecastReq c False, True) \<and>
    isActive (cycles s ! c) \<longrightarrow>
      app (step P (FetchResolve rid data) s) =
        (app s)\<lparr>weatherData := Some data,
                selectedDay := (case dayOrder data of [] \<Rightarrow> None | d # ds \<Rightarrow> Some d),
                weatherStatus := weather_ready\<rparr> \<and>
      app (step P (FetchReject rid err) s) =
        (app s)\<lparr>weatherStatus := weather_error,
                weatherError :=
                  Some (case err of Error m \<Rightarrow> m | NonError \<Rightarrow> ''Unable to load forecast'')\<rparr>)"
  by (simp add: startCycle_app startCycle_requests fetchWeather_resolved_def
      fetchWeather_rejected_def dayOrder0_def)

theorem initial_fetch_witness:
  "selectedLocation (app (initial (Some DEFAULT_LOCATION) [] (demo_storage [] True) :: unit sys)) \<noteq> None \<and>
   0 < length (requests demo_mounted) \<and>
   requests demo_mounted ! 0 = (ForecastReq 0 False, True) \<and>
   isActive (cycles demo_mounted ! 0) \<and>
   weatherStatus (app (startCycle (initial (Some DEFAULT_LOCATION) [] (demo_storage [] True) :: unit sys)))
     = weather_loading \<and>
   weatherStatus (app (step demo_platform
      (FetchResolve 0 \<lparr>dayOrder = [''2024-05-01'', ''2024-05-02''], rest = ()\<rparr>) demo_mounted)) = weather_ready \<and>
   selectedDay (app (step demo_platform
      (FetchResolve 0 \<lparr>dayOrder = [''2024-05-01'', ''2024-05-02''], rest = ()\<rparr>) demo_mounted)) = Some ''2024-05-01'' \<and>
   weatherStatus (app (step demo_platform (FetchReject 0 (Error ''Network down'')) demo_mounted)) = weather_error \<and>
   weatherError (app (step demo_platform (FetchReject 0 (Error ''Network down'')) demo_mounted)) = Some ''Network down''"
  using initial_fetch [of "initial (Some DEFAULT_LOCATION) [] (demo_storage [] True) :: unit sys"
      0 0 demo_platform "\<lparr>dayOrder = [''2024-05-01'', ''2024-05-02''], rest = ()\<rparr>" "Error ''Network down''"]
    initial_fetch [of demo_mounted 0 0 demo_platform
      "\<lparr>dayOrder = [''2024-05-01'', ''2024-05-02''], rest = ()\<rparr>" "Error ''Network down''"]
  by (simp add: demo_mounted_eq initial_def)

text \<open>
  The claim as stated fails in two cases. The units change while the initial
  fetch of the first cycle is in flight: its success arrives after the teardown
  and is discarded, so the status is not ready and no data is in place. And the
  initial fetch returns an empty \<open>dayOrder\<close>: the status becomes ready and the
  selected day is \<open>null\<close>, not a first element.
\<close>

theorem initial_fetch_counterexample:
  "map_sum id (weatherStatus \<circ> app)
     (session demo_platform (demo_storage [] True)
        [SetUnits imperial,
         FetchResolve 0 \<lparr>dayOrder = [''2024-05-01''], rest = ()\<rparr>]) = Inr weather_loading \<and>
   map_sum id (weatherData \<circ> app)
     (session demo_platform (demo_storage [] True)
        [SetUnits imperial,
         FetchResolve 0 \<lparr>dayOrder = [''2024-05-01''], rest = ()\<rparr>]) = Inr None \<and>
   map_sum id (weatherStatus \<circ> app)
     (session demo_platform (demo_storage [] True)
        [FetchResolve 0 \<lparr>dayOrder = [], rest = ()\<rparr>]) = Inr weather_ready \<and>
   map_sum id (selected_is_first \<circ> app)
     (session demo_platform (demo_storage [] True)
        [FetchResolve 0 \<lparr>dayOrder = [], rest = ()\<rparr>]) = Inr False"
  by (simp add: eval_defs demo_mounted_mount rerender_def depsChanged_def cleanup_def
      startCycle_def selected_is_first_def)

text \<open>
  Claim C4, as the code has it. A successful auto-refresh whose response arrives
  while the cycle is still active replaces the weather data wholesale, sets the
  status to ready and recomputes the selected day: it is unchanged when the
  previous one is contained in the new \<open>dayOrder\<close>; otherwise it becomes the
  first element of the new \<open>dayOrder\<close>, or \<open>null\<close> when that is empty. The
  statement is about a previous day that is \<open>null\<close> or a non-empty key; it says
  nothing of the empty string as a key.
\<close>

theorem auto_refresh_success:
  assumes "rid < length (requests s)" and "requests s ! rid = (ForecastReq c True, True)"
    and "isActive (cycles s ! c)" and "selectedDay (app s) \<noteq> Some []"
  shows "app (step P (FetchResolve rid data) s) =
           (app s)\<lparr>weatherData := Some data,
                   selectedDay :=
                     (if \<exists>d. selectedDay (app s) = Some d \<and> d \<in> set (dayOrder data)
                      then selectedDay (app s)
                      else (case dayOrder data of [] \<Rightarrow> None | d # ds \<Rightarrow> Some d)),
                   weatherStatus := weather_ready\<rparr>"
  using assms
  by (auto simp: fetchWeather_resolved_def sticky_def dayOrder0_def split: option.splits)

theorem auto_refresh_success_witness:
  "2 < length (requests demo_sys) \<and> requests demo_sys ! 2 = (ForecastReq 0 True, True) \<and>
   isActive (cycles demo_sys ! 0) \<and> selectedDay (app demo_sys) \<noteq> Some [] \<and>
   selectedDay (app (step demo_platform
     (FetchResolve 2 \<lparr>dayOrder = [''2024-05-02'', ''2024-05-03''], rest = ()\<rparr>) demo_sys)) = Some ''2024-05-02'' \<and>
   selectedDay (app (step demo_platform
     (FetchResolve 2 \<lparr>dayOrder = [''2024-05-03'', ''2024-05-04''], rest = ()\<rparr>) demo_sys)) = Some ''2024-05-03'' \<and>
   selectedDay (app (step demo_platform
     (FetchResolve 2 \<lparr>dayOrder = [], rest = ()\<rparr>) demo_sys)) = None"
  using auto_refresh_success [of 2 demo_sys 0 demo_platform
      "\<lparr>dayOrder = [''2024-05-02'', ''2024-05-03''], rest = ()\<rparr>"]
    auto_refresh_success [of 2 demo_sys 0 demo_platform
      "\<lparr>dayOrder = [''2024-05-03'', ''2024-05-04''], rest = ()\<rparr>"]
    auto_refresh_success [of 2 demo_sys 0 demo_platform "\<lparr>dayOrder = [], rest = ()\<rparr>"]
  by (simp add: demo_sys_eq)

text \<open>
  The claim as stated fails in two cases. The units change while the refresh is
  in flight: its success arrives after the teardown of its cycle and is
  discarded, so the weather data is not replaced. And the refresh returns an
  empty \<open>dayOrder\<close>: the previous day is not contained in it, and the selected
  day becomes \<open>null\<close>, not a first element.
\<close>

theorem auto_refresh_success_counterexample:
  "map_sum id (weatherData \<circ> app)
     (session demo_platform (demo_storage [] True)
        [FetchResolve 0 \<lparr>dayOrder = [''2024-05-01'', ''2024-05-02''], rest = ()\<rparr>,
         Elapse 1000, Tick 1, SetUnits imperial,
         FetchResolve 1 \<lparr>dayOrder = [''2024-05-02'', ''2024-05-03''], rest = ()\<rparr>]) =
     Inr (Some \<lparr>dayOrder = [''2024-05-01'', ''2024-05-02''], rest = ()\<rparr>) \<and>
   map_sum id (selectedDay \<circ> app)
     (session demo_platform (demo_storage [] True)
        [FetchResolve 0 \<lparr>dayOrder = [''2024-05-01'', ''2024-05-02''], rest = ()\<rparr>,
         Elapse 1000, Tick 1, FetchResolve 1 \<lparr>dayOrder = [], rest = ()\<rparr>]) = Inr None \<and>
   map_sum id (selected_is_first \<circ> app)
     (session demo_platform (demo_storage [] True)
        [FetchResolve 0 \<lparr>dayOrder = [''2024-05-01'', ''2024-05-02''], rest = ()\<rparr>,
         Elapse 1000, Tick 1, FetchResolve 1 \<lparr>dayOrder = [], rest = ()\<rparr>]) = Inr False"
  by (simp add: eval_defs demo_mounted_mount rerender_def depsChanged_def cleanup_def
      startCycle_def selected_is_first_def)

text \<open>
  Claim C5, as the code has it. The interval is registered when the cycle
  starts, right after the initial request has been issued, with its first tick
  due one period (1000) later. A tick before its due time does nothing; a tick
  that is due issues an auto-refresh request when the cycle is active (and a
  location is selected), whether or not the initial fetch is still in flight,
  leaves the status untouched and is due again one period later; a tick of an
  inactive cycle issues nothing, and the cleanup of a cycle clears its interval.
\<close>

theorem auto_refresh_timer:
  "timers (startCycle s) (nextTimer s) = Some \<lparr>owner = length (cycles s), due = now s + 1000\<rparr> \<and>
   (\<forall>t. timers s h = Some t \<and> now s < due t \<longrightarrow> tick h s = s) \<and>
   (\<forall>t. timers s h = Some t \<and> due t \<le> now s \<and> isActive (cycles s ! owner t) \<and>
        c_location (cycles s ! owner t) \<noteq> None \<longrightarrow>
        requests (tick h s) = requests s @ [(ForecastReq (owner t) True, True)] \<and>
        timers (tick h s) h = Some (t\<lparr>due := due t + 1000\<rparr>) \<and>
        weatherStatus (app (tick h s)) = weatherStatus (app s)) \<and>
   (\<forall>t. timers s h = Some t \<and> \<not> isActive (cycles s ! owner t) \<longrightarrow>
        requests (tick h s) = requests s) \<and>
   (\<forall>c. c < length (cycles s) \<and> intervalId (cycles s ! c) = Some h \<and> h \<noteq> 0 \<longrightarrow>
        tick h (cleanup c s) = cleanup c s)"
  by (auto simp: startCycle_timers tick_def Let_def fetchWeather_requests fetchWeather_app
      cleanup_def)

text \<open>
  The claim as stated fails when the initial fetch takes longer than one period:
  after 1000 time units the tick issues an auto-refresh request while the
  initial request is still in flight.
\<close>

theorem auto_refresh_timer_counterexample:
  "map_sum id requests
     (session demo_platform (demo_storage [] True) [Elapse 1000, Tick 1 :: unit event]) =
   Inr [(ForecastReq 0 False, True), (ForecastReq 0 True, True)]"
  by (simp add: eval_defs demo_mounted_mount)

theorem auto_refresh_timer_witness:
  "timers demo_sys 1 = Some \<lparr>owner = 0, due = 2000\<rparr> \<and> now demo_sys < 2000 \<and>
   tick 1 demo_sys = demo_sys \<and>
   timers (demo_sys\<lparr>now := 2000\<rparr>) 1 = Some \<lparr>owner = 0, due = 2000\<rparr> \<and>
   isActive (cycles (demo_sys\<lparr>now := 2000\<rparr>) ! 0) \<and>
   c_location (cycles (demo_sys\<lparr>now := 2000\<rparr>) ! 0) \<noteq> None \<and>
   requests (tick 1 (demo_sys\<lparr>now := 2000\<rparr>)) = requests demo_sys @ [(ForecastReq 0 True, True)] \<and>
   intervalId (cycles demo_sys ! 0) = Some 1 \<and>
   tick 1 (cleanup 0 demo_sys) = cleanup 0 demo_sys"
  using auto_refresh_timer [of demo_sys 1] auto_refresh_timer [of "demo_sys\<lparr>now := 2000\<rparr>" 1]
  by (simp add: demo_sys_eq)

text \<open>
  Claim C2 does not hold of the code. The initial fetch fails with the message
  \<open>Network down\<close>; one period later the auto-refresh attempt begins, and
  \<open>setWeatherError(null)\<close> runs before the request, outside the
  \<open>if (!isAutoRefresh)\<close> guard. The attempt fails: the status is still error, and
  the message is gone.
\<close>

theorem auto_refresh_failure_clears_message:
  "map_sum id (weatherStatus \<circ> app)
     (session demo_platform (demo_storage [] True)
        [FetchReject 0 (Error ''Network down''), Elapse 1000 :: unit event]) = Inr weather_error \<and>
   map_sum id (weatherError \<circ> app)
     (session demo_platform (demo_storage [] True)
        [FetchReject 0 (Error ''Network down''), Elapse 1000 :: unit event]) = Inr (Some ''Network down'') \<and>
   map_sum id (weatherStatus \<circ> app)
     (session demo_platform (demo_storage [] True)
        [FetchReject 0 (Error ''Network down''), Elapse 1000, Tick 1,
         FetchReject 1 (Error ''Network down'') :: unit event]) = Inr weather_error \<and>
   map_sum id (weatherError \<circ> app)
     (session demo_platform (demo_storage [] True)
        [FetchReject 0 (Error ''Network down''), Elapse 1000, Tick 1,
         FetchReject 1 (Error ''Network down'') :: unit event]) = Inr None"
  by (simp add: eval_defs demo_mounted_mount)

section \<open>The selected day\<close>

text \<open>
  Claim C1, as the code has it. Every fetch result that is applied, initial or
  auto-refresh, leaves the status ready, the data present and the selected day
  an element of the result's \<open>dayOrder\<close>, or \<open>null\<close> when that \<open>dayOrder\<close> is
  empty. The setter \<open>setSelectedDay\<close> validates nothing; along every history
  from the mount in which each day handed to it is a key of the \<open>dayOrder\<close> on
  display, whenever the status is ready the data is present and the selected day
  is an element of its \<open>dayOrder\<close>, or \<open>null\<close> when that is empty.
\<close>

theorem ready_selection:
  "(rid < length (requests s) \<and> requests s ! rid = (ForecastReq c isAutoRefresh, True) \<and>
    isActive (cycles s ! c) \<longrightarrow>
      weatherStatus (app (step P (FetchResolve rid data) s)) = weather_ready \<and>
      weatherData (app (step P (FetchResolve rid data) s)) = Some data \<and>
      (dayOrder data \<noteq> [] \<longrightarrow>
         (\<exists>d. selectedDay (app (step P (FetchResolve rid data) s)) = Some d \<and>
              d \<in> set (dayOrder data))) \<and>
      (dayOrder data = [] \<longrightarrow>
         selectedDay (app (step P (FetchResolve rid data) s)) = None)) \<and>
   (mount P st = Inr start \<and> picks_live P es start \<and>
    weatherStatus (app (run P es start)) = weather_ready \<longrightarrow>
      (\<exists>shown. weatherData (app (run P es start)) = Some shown \<and>
         (dayOrder shown \<noteq> [] \<longrightarrow>
            (\<exists>d. selectedDay (app (run P es start)) = Some d \<and> d \<in> set (dayOrder shown))) \<and>
         (dayOrder shown = [] \<longrightarrow> selectedDay (app (run P es start)) = None)))"
proof (intro conjI impI)
  assume a: "rid < length (requests s) \<and>
    requests s ! rid = (ForecastReq c isAutoRefresh, True) \<and> isActive (cycles s ! c)"
  then have eq: "app (step P (FetchResolve rid data) s) =
      (app s)\<lparr>weatherData := Some data,
              selectedDay := (if \<not> isAutoRefresh then dayOrder0 (dayOrder data)
                              else sticky (selectedDay (app s)) (dayOrder data)),
              weatherStatus := weather_ready\<rparr>"
    by (simp add: fetchWeather_resolved_def)
  show "weatherStatus (app (step P (FetchResolve rid data) s)) = weather_ready"
    unfolding eq by simp
  show "weatherData (app (step P (FetchResolve rid data) s)) = Some data"
    unfolding eq by simp
  show "\<exists>d. selectedDay (app (step P (FetchResolve rid data) s)) = Some d \<and>
          d \<in> set (dayOrder data)" if "dayOrder data \<noteq> []"
    unfolding eq
    using dayOrder0_mem [OF that] sticky_mem [OF that, of "selectedDay (app s)"] by simp
  show "selectedDay (app (step P (FetchResolve rid data) s)) = None" if "dayOrder data = []"
    unfolding eq using that by simp
next
  assume b: "mount P st = Inr start \<and> picks_live P es start \<and>
    weatherStatus (app (run P es start)) = weather_ready"
  then have "selection_ok (app start)" using mount_inv [of P st start] by simp
  with b have "selection_ok (app (run P es start))" by (simp add: selection_ok_run)
  with b show "\<exists>shown. weatherData (app (run P es start)) = Some shown \<and>
         (dayOrder shown \<noteq> [] \<longrightarrow>
            (\<exists>d. selectedDay (app (run P es start)) = Some d \<and> d \<in> set (dayOrder shown))) \<and>
         (dayOrder shown = [] \<longrightarrow> selectedDay (app (run P es start)) = None)"
    by (auto simp: selection_ok_iff)
qed

text \<open>
  The claim as stated fails for an empty \<open>dayOrder\<close>: the initial fetch of the
  first cycle returns data without days, the status becomes ready and the
  selected day is \<open>null\<close>, which is no element of \<open>dayOrder\<close>.
\<close>

theorem ready_selection_counterexample:
  "map_sum id (ready_selected_in_dayOrder \<circ> app)
     (session demo_platform (demo_storage [] True)
        [FetchResolve 0 \<lparr>dayOrder = [], rest = ()\<rparr>]) = Inr False"
  by (simp add: session_def demo_mounted_mount run_def demo_mounted_eq settle_def
      fetchWeather_resolved_def ready_selected_in_dayOrder_def)

theorem ready_selection_witness:
  "0 < length (requests demo_mounted) \<and>
   requests demo_mounted ! 0 = (ForecastReq 0 False, True) \<and>
   isActive (cycles demo_mounted ! 0) \<and>
   selectedDay (app (step demo_platform
     (FetchResolve 0 \<lparr>dayOrder = [''2024-05-01'', ''2024-05-02''], rest = ()\<rparr>) demo_mounted))
     = Some ''2024-05-01'' \<and>
   mount demo_platform (demo_storage [] True) = Inr demo_mounted \<and>
   picks_live demo_platform
     [FetchResolve 0 \<lparr>dayOrder = [''2024-05-01'', ''2024-05-02''], rest = ()\<rparr>,
      SelectDay ''2024-05-02''] demo_mounted \<and>
   weatherStatus (app (run demo_platform
     [FetchResolve 0 \<lparr>dayOrder = [''2024-05-01'', ''2024-05-02''], rest = ()\<rparr>,
      SelectDay ''2024-05-02''] demo_mounted)) = weather_ready \<and>
   selectedDay (app (run demo_platform
     [FetchResolve 0 \<lparr>dayOrder = [''2024-05-01'', ''2024-05-02''], rest = ()\<rparr>,
      SelectDay ''2024-05-02''] demo_mounted)) = Some ''2024-05-02''"
proof -
  let ?d = "\<lparr>dayOrder = [''2024-05-01'', ''2024-05-02''], rest = ()\<rparr>"
  let ?es = "[FetchResolve 0 ?d, SelectDay ''2024-05-02'']"
  have q: "0 < length (requests demo_mounted) \<and>
      requests demo_mounted ! 0 = (ForecastReq 0 False, True) \<and>
      isActive (cycles demo_mounted ! 0)"
    by (simp add: demo_mounted_eq)
  have first: "selectedDay (app (step demo_platform (FetchResolve 0 ?d) demo_mounted))
      = Some ''2024-05-01''"
    by (simp add: demo_mounted_eq settle_def fetchWeather_resolved_def dayOrder0_def)
  have pl: "picks_live demo_platform ?es demo_mounted"
    by (simp add: demo_mounted_eq settle_def fetchWeather_resolved_def dayOrder0_def
        forecast_shown_def live_day_def)
  have st: "weatherStatus (app (run demo_platform ?es demo_mounted)) = weather_ready"
    by (simp add: eval_defs)
  have sd: "selectedDay (app (run demo_platform ?es demo_mounted)) = Some ''2024-05-02''"
    by (simp add: eval_defs)
  from ready_selection [where rid = 0 and s = demo_mounted and c = 0 and isAutoRefresh = False
      and data = ?d and P = demo_platform and st = "demo_storage [] True"
      and start = demo_mounted and es = ?es]
    q first demo_mounted_mount pl st sd
  show ?thesis by simp
qed

section \<open>Race safety\<close>

lemma extends_trans: "extends a b \<Longrightarrow> extends b c \<Longrightarrow> extends a c"
  by (auto simp: extends_def)

lemma extends_run: "extends (requests s) (requests (run P es s))"
proof (induction es arbitrary: s)
  case Nil
  show ?case by (simp add: run_def)
next
  case (Cons e es)
  have "extends (requests s) (requests (step P e s))" by (rule extends_step)
  moreover have "extends (requests (step P e s)) (requests (run P es (step P e s)))"
    by (rule Cons.IH)
  ultimately show ?case by (simp add: run_def extends_trans)
qed

lemma torn_down_step: "torn_down s c \<Longrightarrow> torn_down (step P e s) c"
  using length_cycles_step [of s P e] mounted_step [of P e s]
  by (auto simp: torn_down_def)

lemma torn_down_run: "torn_down s c \<Longrightarrow> torn_down (run P es s) c"
proof (induction es arbitrary: s)
  case Nil
  then show ?case by (simp add: run_def)
next
  case (Cons e es)
  from Cons.prems have "torn_down (step P e s) c" by (rule torn_down_step)
  then have "torn_down (run P es (step P e s)) c" by (rule Cons.IH)
  then show ?case by (simp add: run_def)
qed

lemma torn_down_inactive:
  "single_active s \<Longrightarrow> torn_down s c \<Longrightarrow> \<not> isActive (cycles s ! c)"
  by (auto simp: single_active_def torn_down_def)

lemma inactive_completion:
  assumes "\<not> isActive (cycles s ! c)" and "fst (requests s ! rid) = ForecastReq c a"
  shows "app (step P (FetchResolve rid data) s) = app s"
    and "app (step P (FetchReject rid err) s) = app s"
    and "localStorage (step P (FetchResolve rid data) s) = localStorage s"
    and "localStorage (step P (FetchReject rid err) s) = localStorage s"
    and "cycles (step P (FetchResolve rid data) s) = cycles s"
    and "cycles (step P (FetchReject rid err) s) = cycles s"
    and "timers (step P (FetchResolve rid data) s) = timers s"
    and "timers (step P (FetchReject rid err) s) = timers s"
  using assms by (simp_all add: fetchWeather_resolved_def fetchWeather_rejected_def)

text \<open>
  Claim C3. Once a cycle has been torn down (a dependency changed and a newer
  cycle was started, or the component was unmounted), its activity flag is
  cleared and stays cleared whatever happens next, and a response to any forecast
  request of that cycle, success or failure, whenever it arrives, is discarded:
  it changes neither the React state nor the storage.
\<close>

theorem torn_down_completion_discarded:
  assumes "reachable P s" and "rid < length (requests s)"
    and "fst (requests s ! rid) = ForecastReq c isAutoRefresh" and "torn_down s c"
  shows "\<not> isActive (cycles (run P es s) ! c) \<and>
         app (step P (FetchResolve rid data) (run P es s)) = app (run P es s) \<and>
         app (step P (FetchReject rid err) (run P es s)) = app (run P es s) \<and>
         localStorage (step P (FetchResolve rid data) (run P es s)) = localStorage (run P es s) \<and>
         localStorage (step P (FetchReject rid err) (run P es s)) = localStorage (run P es s)"
proof -
  let ?s = "run P es s"
  have "reachable P ?s" using assms(1) by (rule reachable_run)
  then have sa: "single_active ?s" by (simp add: reachable_inv)
  have "torn_down ?s c" using assms(4) by (rule torn_down_run)
  with sa have off: "\<not> isActive (cycles ?s ! c)" by (rule torn_down_inactive)
  have "extends (requests s) (requests ?s)" by (rule extends_run)
  with assms(2,3) have req: "fst (requests ?s ! rid) = ForecastReq c isAutoRefresh"
    by (simp add: extends_def)
  from off inactive_completion [OF off req] show ?thesis by blast
qed

theorem torn_down_completion_discarded_witness:
  "reachable demo_platform (run demo_platform [SetUnits imperial] demo_mounted) \<and>
   0 < length (requests (run demo_platform [SetUnits imperial] demo_mounted)) \<and>
   fst (requests (run demo_platform [SetUnits imperial] demo_mounted) ! 0) = ForecastReq 0 False \<and>
   torn_down (run demo_platform [SetUnits imperial] demo_mounted) 0 \<and>
   weatherData (app (step demo_platform
      (FetchResolve 0 \<lparr>dayOrder = [''2024-05-01''], rest = ()\<rparr>)
      (run demo_platform [Elapse 10] (run demo_platform [SetUnits imperial] demo_mounted)))) = None \<and>
   weatherStatus (app (step demo_platform
      (FetchResolve 0 \<lparr>dayOrder = [''2024-05-01''], rest = ()\<rparr>)
      (run demo_platform [Elapse 10] (run demo_platform [SetUnits imperial] demo_mounted)))) = weather_loading"
proof -
  let ?s = "run demo_platform [SetUnits imperial] demo_mounted"
  have s: "?s =
     \<lparr>app = \<lparr>searchTerm = ''San Francisco, United States'', searchResults = [],
             searchStatus = search_idle, searchError = None,
             selectedLocation = Some (Obj 0 DEFAULT_LOCATION),
             units = imperial, weatherData = None, weatherStatus = weather_loading,
             weatherError = None, selectedDay = None\<rparr>,
      localStorage = demo_storage [] True, nextAddr = 1,
      cycles = [\<lparr>isActive = False, intervalId = Some 1,
                 c_location = Some (Obj 0 DEFAULT_LOCATION), c_units = metric\<rparr>,
                \<lparr>isActive = True, intervalId = Some 2,
                 c_location = Some (Obj 0 DEFAULT_LOCATION), c_units = imperial\<rparr>],
      requests = [(ForecastReq 0 False, True), (ForecastReq 1 False, True)],
      timers = [2 \<mapsto> \<lparr>owner = 1, due = 1000\<rparr>], nextTimer = 3, now = 0, mounted = True\<rparr>"
    by (simp add: run_def demo_mounted_eq rerender_def depsChanged_def cleanup_def startCycle_def
        fetchWeather_def Let_def fun_upd_twist)
  have r: "reachable demo_platform ?s" by (rule reachable_run [OF demo_mounted_reachable])
  have l: "0 < length (requests ?s)" by (simp add: s)
  have f: "fst (requests ?s ! 0) = ForecastReq 0 False" by (simp add: s)
  have t: "torn_down ?s 0" by (simp add: s torn_down_def)
  have a: "app (run demo_platform [Elapse 10] ?s) = app ?s" by (simp add: run_def)
  from torn_down_completion_discarded [OF r l f t, of "[Elapse 10]"
      "\<lparr>dayOrder = [''2024-05-01''], rest = ()\<rparr>"] r l f t
  show ?thesis by (simp add: a) (simp add: s)
qed

section \<open>Recovery from an error by a background refresh\<close>

lemma active_step_back:
  assumes "single_active s" and "c < length (cycles s)" and "isActive (cycles (step P e s) ! c)"
  shows "isActive (cycles s ! c)"
proof -
  from assms(1) have sa': "single_active (step P e s)" by (rule single_active_step)
  have len: "length (cycles s) \<le> length (cycles (step P e s))" by (rule length_cycles_step)
  with assms(2) have "c < length (cycles (step P e s))" by simp
  with sa' assms(3) have "Suc c = length (cycles (step P e s))" and m: "mounted (step P e s)"
    by (auto simp: single_active_def)
  with len assms(2) have "Suc c = length (cycles s)" by simp
  moreover from m have "mounted s" by (rule mounted_step)
  ultimately show ?thesis using assms(1,2) by (simp add: single_active_def)
qed

lemma new_initial_request:
  assumes "i < length (requests (step P e s))" and "length (requests s) \<le> i"
    and "fst (requests (step P e s) ! i) = ForecastReq c False"
  shows "length (cycles s) \<le> c"
  using assms
  by (cases e)
    (auto simp: Let_def tick_def fetchWeather_requests handleSearch_def rerender_def
      startCycle_requests nth_append
      split: request.splits option.splits if_splits)

lemma initial_settled_step:
  assumes "initial_settled s c" and "c < length (cycles s)"
  shows "initial_settled (step P e s) c"
  unfolding initial_settled_def
proof (intro allI impI notI)
  fix i
  assume i: "i < length (requests (step P e s))"
    and bad: "fst (requests (step P e s) ! i) = ForecastReq c False \<and> snd (requests (step P e s) ! i)"
  have ext: "extends (requests s) (requests (step P e s))" by (rule extends_step)
  show False
  proof (cases "i < length (requests s)")
    case True
    with ext bad have "fst (requests s ! i) = ForecastReq c False \<and> snd (requests s ! i)"
      by (simp add: extends_def)
    with assms(1) True show False unfolding initial_settled_def by blast
  next
    case False
    with i bad have "length (cycles s) \<le> c" by (simp add: new_initial_request)
    with assms(2) show False by simp
  qed
qed

lemma weatherError_step:
  assumes "weatherError (app (step P e s)) \<noteq> None"
  shows "weatherError (app s) \<noteq> None \<or>
         (\<exists>rid c. rid < length (requests s) \<and> fst (requests s ! rid) = ForecastReq c False \<and>
            snd (requests s ! rid) \<and> isActive (cycles s ! c))"
  using assms
  by (cases e)
    (auto simp: Let_def tick_def fetchWeather_app fetchWeather_resolved_def
      fetchWeather_rejected_def handleSearch_def handleSearch_resolved_def
      handleSearch_rejected_def handleLocationSelection_app rerender_def startCycle_app
      selectDay_def
      split: request.splits option.splits if_splits)

lemma tick_issue:
  assumes "requests (tick h s) = requests s @ [(ForecastReq c True, True)]"
  shows "weatherError (app (tick h s)) = None"
  using assms
  by (auto simp: tick_def Let_def fetchWeather_requests fetchWeather_app
      split: option.splits if_splits)

text \<open>While cycle \<open>c\<close> is active and its initial fetch is settled, no error message is set.\<close>

lemma quiet_step:
  assumes "single_active s" and "refs_ok s" and "c < length (cycles s)" and "initial_settled s c"
    and "isActive (cycles s ! c) \<longrightarrow> weatherError (app s) = None"
    and "isActive (cycles (step P e s) ! c)"
  shows "weatherError (app (step P e s)) = None"
proof (rule ccontr)
  assume "weatherError (app (step P e s)) \<noteq> None"
  from assms(1,3,6) have act: "isActive (cycles s ! c)" by (rule active_step_back)
  with assms(5) have "weatherError (app s) = None" by simp
  with \<open>weatherError (app (step P e s)) \<noteq> None\<close> weatherError_step [of P e s]
  obtain rid c' where rid: "rid < length (requests s)"
    and req: "fst (requests s ! rid) = ForecastReq c' False" "snd (requests s ! rid)"
    and act': "isActive (cycles s ! c')"
    by blast
  from assms(2) rid req(1) have "c' < length (cycles s)" unfolding refs_ok_def by blast
  with assms(1,3) act act' have "c' = c" by (auto simp: single_active_def)
  with assms(4) rid req show False unfolding initial_settled_def by blast
qed

lemma quiet_run:
  assumes "reachable P s" and "c < length (cycles s)" and "initial_settled s c"
    and "isActive (cycles s ! c) \<longrightarrow> weatherError (app s) = None"
  shows "initial_settled (run P es s) c \<and> c < length (cycles (run P es s)) \<and>
         (isActive (cycles (run P es s) ! c) \<longrightarrow> weatherError (app (run P es s)) = None)"
  using assms
proof (induction es arbitrary: s)
  case Nil
  then show ?case by (simp add: run_def)
next
  case (Cons e es)
  let ?s' = "step P e s"
  from Cons.prems(1) have inv: "single_active s" "refs_ok s" by (simp_all add: reachable_inv)
  have 1: "reachable P ?s'" using Cons.prems(1) by (rule reach_step)
  have 2: "c < length (cycles ?s')"
    using Cons.prems(2) length_cycles_step [of s P e] by simp
  have 3: "initial_settled ?s' c" using Cons.prems(3,2) by (rule initial_settled_step)
  have 4: "isActive (cycles ?s' ! c) \<longrightarrow> weatherError (app ?s') = None"
    using quiet_step [OF inv Cons.prems(2,3,4)] by blast
  from Cons.IH [OF 1 2 3 4] show ?case by (simp add: run_def)
qed

text \<open>
  Claim C10, as the code has it. An auto-refresh attempt clears the error message
  when it begins. If the initial fetch of its cycle is no longer in flight at
  that moment (in particular when it has failed and the status is error), then
  whatever happens while the refresh is in flight, a success that arrives while
  the cycle is still active leaves the status ready, the error message cleared
  and the new data in place.
\<close>

theorem refresh_success_clears_error:
  assumes "reachable P s0" and "initial_settled s0 c"
    and "requests (step P (Tick h) s0) = requests s0 @ [(ForecastReq c True, True)]"
    and "snd (requests (run P es (step P (Tick h) s0)) ! length (requests s0))"
    and "isActive (cycles (run P es (step P (Tick h) s0)) ! c)"
  shows "weatherStatus (app (step P (FetchResolve (length (requests s0)) data)
            (run P es (step P (Tick h) s0)))) = weather_ready \<and>
         weatherError (app (step P (FetchResolve (length (requests s0)) data)
            (run P es (step P (Tick h) s0)))) = None \<and>
         weatherData (app (step P (FetchResolve (length (requests s0)) data)
            (run P es (step P (Tick h) s0)))) = Some data"
proof -
  let ?n = "length (requests s0)"
  let ?t = "step P (Tick h) s0"
  let ?s = "run P es ?t"
  have rt: "reachable P ?t" using assms(1) by (rule reach_step)
  have nth: "requests ?t ! ?n = (ForecastReq c True, True)" unfolding assms(3) by simp
  have len: "?n < length (requests ?t)" unfolding assms(3) by simp
  from rt have "refs_ok ?t" by (simp add: reachable_inv)
  with len nth have c: "c < length (cycles ?t)" unfolding refs_ok_def by (metis fst_conv)
  have settled: "initial_settled ?t c"
    using assms(2) unfolding initial_settled_def assms(3)
    by (auto simp: nth_append less_Suc_eq)
  have "weatherError (app (tick h s0)) = None"
    using assms(3) by (intro tick_issue [of h s0 c]) simp
  then have quiet: "isActive (cycles ?t ! c) \<longrightarrow> weatherError (app ?t) = None" by simp
  from quiet_run [OF rt c settled quiet, of es] assms(5)
  have err: "weatherError (app ?s) = None" by blast
  have "extends (requests ?t) (requests ?s)" by (rule extends_run)
  with len nth have n: "?n < length (requests ?s)" and f: "fst (requests ?s ! ?n) = ForecastReq c True"
    by (simp_all add: extends_def)
  from n f assms(4,5) err show ?thesis
    by (simp add: fetchWeather_resolved_def)
qed

text \<open>
  The claim as stated fails when the initial fetch is still in flight as the
  refresh begins: the initial fetch fails while the refresh is in flight and sets
  the message, and the success of the refresh sets the status to ready without
  clearing it.
\<close>

theorem refresh_success_clears_error_counterexample:
  "map_sum id (weatherStatus \<circ> app)
     (session demo_platform (demo_storage [] True)
        [Elapse 1000, Tick 1, FetchReject 0 (Error ''Network down''),
         FetchResolve 1 \<lparr>dayOrder = [''2024-05-01''], rest = ()\<rparr>]) = Inr weather_ready \<and>
   map_sum id (weatherError \<circ> app)
     (session demo_platform (demo_storage [] True)
        [Elapse 1000, Tick 1, FetchReject 0 (Error ''Network down''),
         FetchResolve 1 \<lparr>dayOrder = [''2024-05-01''], rest = ()\<rparr>]) = Inr (Some ''Network down'')"
  by (simp add: eval_defs demo_mounted_mount)

theorem refresh_success_clears_error_witness:
  "reachable demo_platform
     (run demo_platform [FetchReject 0 (Error ''Network down''), Elapse 1000] demo_mounted) \<and>
   initial_settled
     (run demo_platform [FetchReject 0 (Error ''Network down''), Elapse 1000] demo_mounted) 0 \<and>
   weatherStatus (app
     (run demo_platform [FetchReject 0 (Error ''Network down''), Elapse 1000] demo_mounted))
     = weather_error \<and>
   weatherError (app
     (run demo_platform [FetchReject 0 (Error ''Network down''), Elapse 1000] demo_mounted))
     = Some ''Network down'' \<and>
   requests (step demo_platform (Tick 1)
     (run demo_platform [FetchReject 0 (Error ''Network down''), Elapse 1000] demo_mounted)) =
     requests (run demo_platform [FetchReject 0 (Error ''Network down''), Elapse 1000] demo_mounted)
       @ [(ForecastReq 0 True, True)] \<and>
   isActive (cycles (run demo_platform []
        (step demo_platform (Tick 1)
           (run demo_platform [FetchReject 0 (Error ''Network down''), Elapse 1000] demo_mounted))) ! 0) \<and>
   weatherStatus (app (step demo_platform
     (FetchResolve 1 \<lparr>dayOrder = [''2024-05-01''], rest = ()\<rparr>)
     (run demo_platform []
        (step demo_platform (Tick 1)
           (run demo_platform [FetchReject 0 (Error ''Network down''), Elapse 1000] demo_mounted)))))
     = weather_ready \<and>
   weatherError (app (step demo_platform
     (FetchResolve 1 \<lparr>dayOrder = [''2024-05-01''], rest = ()\<rparr>)
     (run demo_platform []
        (step demo_platform (Tick 1)
           (run demo_platform [FetchReject 0 (Error ''Network down''), Elapse 1000] demo_mounted)))))
     = None"
proof -
  let ?s0 = "run demo_platform [FetchReject 0 (Error ''Network down''), Elapse 1000] demo_mounted"
  have s0: "?s0 =
     \<lparr>app = \<lparr>searchTerm = ''San Francisco, United States'', searchResults = [],
             searchStatus = search_idle, searchError = None,
             selectedLocation = Some (Obj 0 DEFAULT_LOCATION),
             units = metric, weatherData = None, weatherStatus = weather_error,
             weatherError = Some ''Network down'', selectedDay = None\<rparr>,
      localStorage = demo_storage [] True, nextAddr = 1,
      cycles = [\<lparr>isActive = True, intervalId = Some 1,
                 c_location = Some (Obj 0 DEFAULT_LOCATION), c_units = metric\<rparr>],
      requests = [(ForecastReq 0 False, False)],
      timers = [1 \<mapsto> \<lparr>owner = 0, due = 1000\<rparr>], nextTimer = 2, now = 1000, mounted = True\<rparr>"
    by (simp add: eval_defs)
  have r: "reachable demo_platform ?s0" by (rule reachable_run [OF demo_mounted_reachable])
  have i: "initial_settled ?s0 0" unfolding s0 by (simp add: initial_settled_def)
  have t: "requests (step demo_platform (Tick 1) ?s0) = requests ?s0 @ [(ForecastReq 0 True, True)]"
    unfolding s0 by (simp add: tick_def fetchWeather_def Let_def)
  have f: "snd (requests (run demo_platform [] (step demo_platform (Tick 1) ?s0)) ! length (requests ?s0))"
    unfolding s0 by (simp add: run_def tick_def fetchWeather_def Let_def)
  have a: "isActive (cycles (run demo_platform [] (step demo_platform (Tick 1) ?s0)) ! 0)"
    unfolding s0 by (simp add: run_def)
  have n: "length (requests ?s0) = 1" unfolding s0 by simp
  from refresh_success_clears_error [OF r i t f a,
      of "\<lparr>dayOrder = [''2024-05-01''], rest = ()\<rparr>"] r i t a
  show ?thesis unfolding n s0 by simp
qed

end
